theory Spec2Isabelle
  imports Main "HOL-Library.Word"
begin

section \<open>Pyrogram: \<open>SendGIF.send_gif\<close>\<close>

text \<open>
  A shallow embedding of \<^verbatim>\<open>pyrogram/client/methods/messages/media/send_gif.py\<close>.
  The method resolves its \<open>gif\<close> argument to a media descriptor (local file, HTTP URL or
  file id), then sends it in a \<^verbatim>\<open>while True\<close> loop that re-uploads a file part whenever the
  server reports one missing.

  Python exceptions are values of \<open>exn\<close>; a computation that may raise returns
  \<open>exn + 'a\<close>. The client's collaborators (\<open>save_file\<close>, \<open>send\<close>, \<open>resolve_peer\<close>, ...)
  live outside this file: they are fields of a \<open>client\<close> record, functions over an
  arbitrary world \<open>'w\<close>. Python objects that \<open>send_gif\<close> passes on without looking
  inside are values of the type variable \<open>'o\<close>.
\<close>

subsection \<open>Exceptions\<close>

datatype exn =
    AssertionError
  | BinasciiError
  | StructError
  | FileIdInvalid "string option"
  | FilePartMissing int
  | AttributeError string
  | OtherError string

subsection \<open>\<open>struct.unpack\<close> for the formats \<^verbatim>\<open><iiqq\<close> and \<^verbatim>\<open><iiqqqqi\<close>\<close>

type_synonym byte = "8 word"

text \<open>
  Standard sizes of the format characters used by the source: \<^verbatim>\<open>i\<close> is a signed 32-bit
  integer, \<^verbatim>\<open>q\<close> a signed 64-bit integer. Other characters are outside the model.
\<close>

definition code_size :: "char \<Rightarrow> nat option" where
  "code_size c = (if c = CHR ''i'' then Some 4 else if c = CHR ''q'' then Some 8 else None)"

fun code_sizes :: "string \<Rightarrow> nat list option" where
  "code_sizes [] = Some []"
| "code_sizes (c # cs) =
     (case code_size c of
        None \<Rightarrow> None
      | Some n \<Rightarrow> (case code_sizes cs of None \<Rightarrow> None | Some ns \<Rightarrow> Some (n # ns)))"

text \<open>
  A format starting with \<^verbatim>\<open><\<close> is little-endian, standard sizes, no alignment padding.
\<close>

definition fmt_sizes :: "string \<Rightarrow> nat list option" where
  "fmt_sizes fmt = (case fmt of [] \<Rightarrow> None
                    | c # cs \<Rightarrow> if c = CHR ''<'' then code_sizes cs else None)"

fun le_unsigned :: "byte list \<Rightarrow> int" where
  "le_unsigned [] = 0"
| "le_unsigned (b # bs) = uint b + 256 * le_unsigned bs"

definition le_signed :: "byte list \<Rightarrow> int" where
  "le_signed bs =
     (let u = le_unsigned bs; n = 8 * length bs
      in if 2 ^ (n - 1) \<le> u then u - 2 ^ n else u)"

fun unpack_fields :: "nat list \<Rightarrow> byte list \<Rightarrow> int list" where
  "unpack_fields [] bs = []"
| "unpack_fields (n # ns) bs = le_signed (take n bs) # unpack_fields ns (drop n bs)"

text \<open>
  \<^verbatim>\<open>struct.unpack(fmt, buffer)\<close> raises \<^verbatim>\<open>struct.error\<close> unless the buffer has exactly
  the size of the format.
\<close>

definition struct_unpack :: "string \<Rightarrow> byte list \<Rightarrow> exn + int list" where
  "struct_unpack fmt bs =
     (case fmt_sizes fmt of
        None \<Rightarrow> Inl StructError
      | Some ns \<Rightarrow> if length bs \<noteq> sum_list ns then Inl StructError
                   else Inr (unpack_fields ns bs))"

subsection \<open>Formatting an integer, as \<^verbatim>\<open>"{}".format(n)\<close> does\<close>

definition digit_char :: "nat \<Rightarrow> char" where
  "digit_char d = ''0123456789'' ! d"

fun nat_str :: "nat \<Rightarrow> string" where
  "nat_str n = (if n < 10 then [digit_char n] else nat_str (n div 10) @ [digit_char (n mod 10)])"

declare nat_str.simps [simp del]

definition int_str :: "int \<Rightarrow> string" where
  "int_str i = (if i < 0 then CHR ''-'' # nat_str (nat (- i)) else nat_str (nat i))"

subsection \<open>Paths and strings\<close>

text \<open>\<^verbatim>\<open>os.path.basename\<close> (POSIX): what follows the last slash.\<close>

fun basename :: "string \<Rightarrow> string" where
  "basename [] = []"
| "basename (c # cs) = (if CHR ''/'' \<in> set cs then basename cs
                         else if c = CHR ''/'' then cs else c # cs)"

definition startswith :: "string \<Rightarrow> string \<Rightarrow> bool" where
  "startswith s p = (take (length p) s = p)"

text \<open>\<^verbatim>\<open>str.lower\<close> on the ASCII letters.\<close>

definition lower_char :: "char \<Rightarrow> char" where
  "lower_char c =
     (case map_of (zip ''ABCDEFGHIJKLMNOPQRSTUVWXYZ'' ''abcdefghijklmnopqrstuvwxyz'') c of
        None \<Rightarrow> c
      | Some l \<Rightarrow> l)"

definition lower :: "string \<Rightarrow> string" where
  "lower s = map lower_char s"

text \<open>\<^verbatim>\<open>mimetypes.types_map[".mp4"]\<close> of the standard library.\<close>

definition types_map_mp4 :: string where
  "types_map_mp4 = ''video/mp4''"

subsection \<open>Protocol types\<close>

text \<open>
  Modelled from the spec: the handle that \<open>save_file\<close> returns (\<open>UploadedFileHandle\<close>,
  \<^verbatim>\<open>types.InputFile\<close> in the library), whose declaration is outside this file. The source
  reads only its \<^verbatim>\<open>id\<close>.
\<close>

record input_file =
  file_id :: int
  is_big :: bool
  part_count :: int

datatype document_attribute =
    DocumentAttributeVideo bool int int int
      \<comment> \<open>\<open>supports_streaming\<close>, \<open>duration\<close>, \<open>w\<close>, \<open>h\<close>\<close>
  | DocumentAttributeFilename string
  | DocumentAttributeAnimated

datatype input_document = InputDocument int int  \<comment> \<open>\<open>id\<close>, \<open>access_hash\<close>\<close>

datatype input_media =
    InputMediaUploadedDocument string input_file "input_file option" "document_attribute list"
      \<comment> \<open>\<open>mime_type\<close>, \<open>file\<close>, \<open>thumb\<close>, \<open>attributes\<close>\<close>
  | InputMediaDocumentExternal string  \<comment> \<open>\<open>url\<close>\<close>
  | InputMediaDocument input_document  \<comment> \<open>\<open>id\<close>\<close>

datatype chat_ref = ChatInt int | ChatStr string  \<comment> \<open>\<^verbatim>\<open>chat_id: int or str\<close>\<close>

text \<open>The request \<^verbatim>\<open>functions.messages.SendMedia\<close>, with the fields the source sets.\<close>

record 'o send_media =
  peer :: 'o
  media :: input_media
  silent :: "bool option"
  reply_to_msg_id :: "int option"
  random_id :: int
  reply_markup_bytes :: "'o option"
  styled :: 'o  \<comment> \<open>the keyword arguments \<^verbatim>\<open>**style.parse(caption)\<close>\<close>

datatype 'o update =
    UpdateNewMessage 'o
  | UpdateNewChannelMessage 'o
  | UpdateOther 'o  \<comment> \<open>any other update class\<close>

text \<open>A user or chat of the response: its \<^verbatim>\<open>id\<close> and the object itself.\<close>

type_synonym 'o entity = "int \<times> 'o"

record 'o updates_response =
  updates :: "'o update list"
  users :: "'o entity list"
  chats :: "'o entity list"

subsection \<open>The client and the calls it makes\<close>

record ('w, 'o) client =
  path_exists :: "'w \<Rightarrow> string \<Rightarrow> bool"  \<comment> \<open>\<^verbatim>\<open>os.path.exists\<close>\<close>
  save_file :: "string \<Rightarrow> int option \<Rightarrow> int \<Rightarrow> 'o option \<Rightarrow> 'o list \<Rightarrow> 'w
                  \<Rightarrow> (exn + input_file) \<times> 'w"
    \<comment> \<open>\<open>path\<close>, \<open>file_id\<close> (default \<open>None\<close>), \<open>file_part\<close> (default 0), \<open>progress\<close>,
        \<open>progress_args\<close>\<close>
  decode :: "string \<Rightarrow> exn + byte list"  \<comment> \<open>\<^verbatim>\<open>utils.decode\<close>\<close>
  MEDIA_TYPE_ID :: "int \<rightharpoonup> string"  \<comment> \<open>\<^verbatim>\<open>BaseClient.MEDIA_TYPE_ID\<close>\<close>
  resolve_peer :: "chat_ref \<Rightarrow> 'w \<Rightarrow> (exn + 'o) \<times> 'w"
  rnd_id :: "'w \<Rightarrow> int \<times> 'w"
  markup_write :: "'o \<Rightarrow> 'o"  \<comment> \<open>\<^verbatim>\<open>reply_markup.write()\<close>\<close>
  html_parse :: "string \<Rightarrow> 'o"  \<comment> \<open>\<^verbatim>\<open>self.html.parse\<close>\<close>
  markdown_parse :: "string \<Rightarrow> 'o"  \<comment> \<open>\<^verbatim>\<open>self.markdown.parse\<close>\<close>
  send :: "'o send_media \<Rightarrow> 'w \<Rightarrow> (exn + 'o updates_response) \<times> 'w"
  parse_messages :: "'o \<Rightarrow> (int \<rightharpoonup> 'o entity) \<Rightarrow> (int \<rightharpoonup> 'o entity) \<Rightarrow> 'w
                       \<Rightarrow> (exn + 'o) \<times> 'w"  \<comment> \<open>\<^verbatim>\<open>utils.parse_messages\<close>\<close>

text \<open>
  The calls to the uploader and to the network are recorded, in order, beside the world:
  claims about which calls are made, and with which arguments, are about this record.
\<close>

datatype 'o event =
    EvSaveFile string "int option" int "'o option" "'o list"
  | EvResolvePeer chat_ref
  | EvSend "'o send_media"
  | EvParseMessages 'o

record ('w, 'o) state =
  world :: 'w
  calls :: "'o event list"

definition call_save_file ::
  "('w, 'o) client \<Rightarrow> string \<Rightarrow> int option \<Rightarrow> int \<Rightarrow> 'o option \<Rightarrow> 'o list
     \<Rightarrow> ('w, 'o) state \<Rightarrow> (exn + input_file) \<times> ('w, 'o) state" where
  "call_save_file cl path fid part prog pargs s =
     (case save_file cl path fid part prog pargs (world s) of
        (r, w') \<Rightarrow> (r, \<lparr>world = w', calls = calls s @ [EvSaveFile path fid part prog pargs]\<rparr>))"

definition call_resolve_peer ::
  "('w, 'o) client \<Rightarrow> chat_ref \<Rightarrow> ('w, 'o) state \<Rightarrow> (exn + 'o) \<times> ('w, 'o) state" where
  "call_resolve_peer cl c s =
     (case resolve_peer cl c (world s) of
        (r, w') \<Rightarrow> (r, \<lparr>world = w', calls = calls s @ [EvResolvePeer c]\<rparr>))"

definition call_send ::
  "('w, 'o) client \<Rightarrow> 'o send_media \<Rightarrow> ('w, 'o) state
     \<Rightarrow> (exn + 'o updates_response) \<times> ('w, 'o) state" where
  "call_send cl req s =
     (case send cl req (world s) of
        (r, w') \<Rightarrow> (r, \<lparr>world = w', calls = calls s @ [EvSend req]\<rparr>))"

definition call_parse_messages ::
  "('w, 'o) client \<Rightarrow> 'o \<Rightarrow> (int \<rightharpoonup> 'o entity) \<Rightarrow> (int \<rightharpoonup> 'o entity)
     \<Rightarrow> ('w, 'o) state \<Rightarrow> (exn + 'o) \<times> ('w, 'o) state" where
  "call_parse_messages cl m us cs s =
     (case parse_messages cl m us cs (world s) of
        (r, w') \<Rightarrow> (r, \<lparr>world = w', calls = calls s @ [EvParseMessages m]\<rparr>))"

subsection \<open>The arguments of \<open>send_gif\<close>\<close>

record 'o gif_args =
  chat_id :: chat_ref
  gif :: string
  caption :: string
  parse_mode :: string
  duration :: int
  width :: int
  height :: int
  thumb :: "string option"
  disable_notification :: "bool option"
  reply_to_message_id :: "int option"
  reply_markup :: "'o option"
  progress :: "'o option"
  progress_args :: "'o list"

subsection \<open>Resolving the \<open>gif\<close> argument (source lines 121 to 167)\<close>

text \<open>
  Lines 147 to 152: decode the file id and unpack it; \<^verbatim>\<open>AssertionError\<close>,
  \<^verbatim>\<open>binascii.Error\<close> and \<^verbatim>\<open>struct.error\<close> become \<^verbatim>\<open>FileIdInvalid\<close> without an argument, any
  other exception of \<open>decode\<close> passes through.
\<close>

definition caught :: "exn \<Rightarrow> bool" where
  "caught e = (e = AssertionError \<or> e = BinasciiError \<or> e = StructError)"

definition choose_fmt :: "byte list \<Rightarrow> string" where
  "choose_fmt decoded = (if length decoded > 24 then ''<iiqqqqi'' else ''<iiqq'')"

definition decode_unpack :: "('w, 'o) client \<Rightarrow> string \<Rightarrow> exn + int list" where
  "decode_unpack cl g =
     (case decode cl g of
        Inl e \<Rightarrow> if caught e then Inl (FileIdInvalid None) else Inl e
      | Inr decoded \<Rightarrow>
          (case struct_unpack (choose_fmt decoded) decoded of
             Inl e \<Rightarrow> if caught e then Inl (FileIdInvalid None) else Inl e
           | Inr unpacked \<Rightarrow> Inr unpacked))"

text \<open>
  Lines 154 to 167. \<^verbatim>\<open>if media_type:\<close> is false for \<open>None\<close> and for the empty string.
  The indices 0, 2 and 3 are within both layouts.
\<close>

definition from_file_id :: "('w, 'o) client \<Rightarrow> string \<Rightarrow> exn + input_media" where
  "from_file_id cl g =
     (case decode_unpack cl g of
        Inl e \<Rightarrow> Inl e
      | Inr unpacked \<Rightarrow>
          if unpacked ! 0 \<noteq> 10 then
            (case MEDIA_TYPE_ID cl (unpacked ! 0) of
               None \<Rightarrow> Inl (FileIdInvalid (Some (''Unknown media type: '' @ int_str (unpacked ! 0))))
             | Some media_type \<Rightarrow>
                 if media_type \<noteq> [] then
                   Inl (FileIdInvalid (Some (''The file_id belongs to a '' @ media_type)))
                 else
                   Inl (FileIdInvalid (Some (''Unknown media type: '' @ int_str (unpacked ! 0)))))
          else Inr (InputMediaDocument (InputDocument (unpacked ! 2) (unpacked ! 3))))"

text \<open>
  Lines 121 to 167: the three branches, in the order of the source. The result is the
  descriptor \<open>media\<close> and the variable \<open>file\<close>, which stays \<open>None\<close> outside the first
  branch.
\<close>

definition resolve ::
  "('w, 'o) client \<Rightarrow> 'o gif_args \<Rightarrow> ('w, 'o) state
     \<Rightarrow> (exn + input_media \<times> input_file option) \<times> ('w, 'o) state" where
  "resolve cl a s =
     (if path_exists cl (world s) (gif a) then
        (case (case thumb a of
                 None \<Rightarrow> (Inr None, s)
               | Some t \<Rightarrow> (case call_save_file cl t None 0 None [] s of
                              (Inl e, s1) \<Rightarrow> (Inl e, s1)
                            | (Inr th, s1) \<Rightarrow> (Inr (Some th), s1))) of
           (Inl e, s1) \<Rightarrow> (Inl e, s1)
         | (Inr th, s1) \<Rightarrow>
             (case call_save_file cl (gif a) None 0 (progress a) (progress_args a) s1 of
                (Inl e, s2) \<Rightarrow> (Inl e, s2)
              | (Inr f, s2) \<Rightarrow>
                  (Inr (InputMediaUploadedDocument types_map_mp4 f th
                          [DocumentAttributeVideo True (duration a) (width a) (height a),
                           DocumentAttributeFilename (basename (gif a)),
                           DocumentAttributeAnimated],
                        Some f), s2)))
      else if startswith (gif a) ''http'' then
        (Inr (InputMediaDocumentExternal (gif a), None), s)
      else
        (case from_file_id cl (gif a) of
           Inl e \<Rightarrow> (Inl e, s)
         | Inr m \<Rightarrow> (Inr (m, None), s)))"

subsection \<open>The send loop (source lines 169 to 191)\<close>

text \<open>\<^verbatim>\<open>style = self.html if parse_mode.lower() == "html" else self.markdown\<close> (line 122).\<close>

definition style_parse :: "('w, 'o) client \<Rightarrow> 'o gif_args \<Rightarrow> string \<Rightarrow> 'o" where
  "style_parse cl a = (if lower (parse_mode a) = ''html'' then html_parse cl else markdown_parse cl)"

text \<open>\<^verbatim>\<open>disable_notification or None\<close> (line 175).\<close>

definition silent_flag :: "bool option \<Rightarrow> bool option" where
  "silent_flag d = (case d of Some True \<Rightarrow> Some True | _ \<Rightarrow> None)"

text \<open>Lines 172 to 180: the request, given the resolved peer and the drawn identifier.\<close>

definition send_media_request ::
  "('w, 'o) client \<Rightarrow> 'o gif_args \<Rightarrow> input_media \<Rightarrow> 'o \<Rightarrow> int \<Rightarrow> 'o send_media" where
  "send_media_request cl a m p rid =
     \<lparr>peer = p,
      media = m,
      silent = silent_flag (disable_notification a),
      reply_to_msg_id = reply_to_message_id a,
      random_id = rid,
      reply_markup_bytes =
        (case reply_markup a of None \<Rightarrow> None | Some k \<Rightarrow> Some (markup_write cl k)),
      styled = style_parse cl a (caption a)\<rparr>"

text \<open>
  Lines 171 to 181, the body of \<^verbatim>\<open>try\<close>: the arguments of the request are evaluated in
  the order written (\<open>resolve_peer\<close>, then \<open>rnd_id\<close>; \<open>write\<close> and \<open>parse\<close> are pure here),
  then the request is sent.
\<close>

definition try_send ::
  "('w, 'o) client \<Rightarrow> 'o gif_args \<Rightarrow> input_media \<Rightarrow> ('w, 'o) state
     \<Rightarrow> (exn + 'o updates_response) \<times> ('w, 'o) state" where
  "try_send cl a m s =
     (case call_resolve_peer cl (chat_id a) s of
        (Inl e, s1) \<Rightarrow> (Inl e, s1)
      | (Inr p, s1) \<Rightarrow>
          (case rnd_id cl (world s1) of
             (rid, w2) \<Rightarrow>
               call_send cl (send_media_request cl a m p rid) (s1\<lparr>world := w2\<rparr>)))"

text \<open>Lines 185 to 186: the message of the first update of one of the two classes.\<close>

fun first_new_message :: "'o update list \<Rightarrow> 'o option" where
  "first_new_message [] = None"
| "first_new_message (UpdateNewMessage m # us) = Some m"
| "first_new_message (UpdateNewChannelMessage m # us) = Some m"
| "first_new_message (UpdateOther u # us) = first_new_message us"

text \<open>\<^verbatim>\<open>{i.id: i for i in xs}\<close>: a later entity with the same id replaces an earlier one.\<close>

definition by_id :: "'o entity list \<Rightarrow> (int \<rightharpoonup> 'o entity)" where
  "by_id es = map_of (rev (map (\<lambda>e. (fst e, e)) es))"

text \<open>
  One pass through the body of \<^verbatim>\<open>while True\<close>. It returns a message, raises, or falls
  through to the next pass. In the handler, \<^verbatim>\<open>file.id\<close> is evaluated before \<open>save_file\<close> is
  called: with \<open>file\<close> still \<open>None\<close> that raises \<^verbatim>\<open>AttributeError\<close>. What \<open>save_file\<close> raises
  inside the handler is not caught by the \<^verbatim>\<open>try\<close> it belongs to.
\<close>

datatype 'r outcome = Return 'r | Raise exn | Continue

definition none_has_no_id :: string where
  "none_has_no_id =
     [CHR 0x27] @ ''NoneType'' @ [CHR 0x27] @ '' object has no attribute ''
       @ [CHR 0x27] @ ''id'' @ [CHR 0x27]"

definition attempt ::
  "('w, 'o) client \<Rightarrow> 'o gif_args \<Rightarrow> input_media \<Rightarrow> input_file option \<Rightarrow> ('w, 'o) state
     \<Rightarrow> 'o outcome \<times> ('w, 'o) state" where
  "attempt cl a m file s =
     (case try_send cl a m s of
        (Inl e, s1) \<Rightarrow>
          (case e of
             FilePartMissing x \<Rightarrow>
               (case file of
                  None \<Rightarrow> (Raise (AttributeError none_has_no_id), s1)
                | Some f \<Rightarrow>
                    (case call_save_file cl (gif a) (Some (file_id f)) x None [] s1 of
                       (Inl e', s2) \<Rightarrow> (Raise e', s2)
                     | (Inr _, s2) \<Rightarrow> (Continue, s2)))
           | _ \<Rightarrow> (Raise e, s1))
      | (Inr r, s1) \<Rightarrow>
          (case first_new_message (updates r) of
             None \<Rightarrow> (Continue, s1)
           | Some msg \<Rightarrow>
               (case call_parse_messages cl msg (by_id (users r)) (by_id (chats r)) s1 of
                  (Inl e, s2) \<Rightarrow> (Raise e, s2)
                | (Inr res, s2) \<Rightarrow> (Return res, s2))))"

text \<open>
  \<^verbatim>\<open>while True\<close>: the loop ends only by \<^verbatim>\<open>return\<close> or by an exception. \<open>None\<close> is a loop
  that never ends.
\<close>

partial_function (option) send_loop ::
  "('w, 'o) client \<Rightarrow> 'o gif_args \<Rightarrow> input_media \<Rightarrow> input_file option \<Rightarrow> ('w, 'o) state
     \<Rightarrow> ((exn + 'o) \<times> ('w, 'o) state) option" where
  "send_loop cl a m file s =
     (case attempt cl a m file s of
        (Return res, s') \<Rightarrow> Some (Inr res, s')
      | (Raise e, s') \<Rightarrow> Some (Inl e, s')
      | (Continue, s') \<Rightarrow> send_loop cl a m file s')"

declare send_loop.simps [code]

definition send_gif ::
  "('w, 'o) client \<Rightarrow> 'o gif_args \<Rightarrow> ('w, 'o) state
     \<Rightarrow> ((exn + 'o) \<times> ('w, 'o) state) option" where
  "send_gif cl a s =
     (case resolve cl a s of
        (Inl e, s1) \<Rightarrow> Some (Inl e, s1)
      | (Inr (m, file), s1) \<Rightarrow> send_loop cl a m file s1)"

subsection \<open>A small concrete client, for evaluating the definitions\<close>

text \<open>
  The world of the test client: the files that exist, the answers the server will give to
  the next \<open>send\<close> calls, and a counter from which \<open>rnd_id\<close> draws. Opaque objects are
  strings.
\<close>

record test_world =
  files :: "string list"
  answers :: "(exn + string updates_response) list"
  next_id :: int

text \<open>
  Identifiers as \<open>decode\<close> would return them: a 24-byte one with the fields 10, 1, 7, 8,
  a 44-byte one with the fields 10, 1, 7, 8, 5, 6, 3, and two 24-byte ones of kind 2
  and 99.
\<close>

definition short_id :: "byte list" where
  "short_id = [10, 0, 0, 0, 1, 0, 0, 0, 7, 0, 0, 0, 0, 0, 0, 0, 8, 0, 0, 0, 0, 0, 0, 0]"

definition long_id :: "byte list" where
  "long_id = [10, 0, 0, 0, 1, 0, 0, 0, 7, 0, 0, 0, 0, 0, 0, 0, 8, 0, 0, 0, 0, 0, 0, 0, 5, 0, 0, 0, 0, 0, 0, 0, 6, 0, 0, 0, 0, 0, 0, 0, 3, 0, 0, 0]"

definition video_id :: "byte list" where
  "video_id = [2, 0, 0, 0, 1, 0, 0, 0, 7, 0, 0, 0, 0, 0, 0, 0, 8, 0, 0, 0, 0, 0, 0, 0]"

definition odd_id :: "byte list" where
  "odd_id = [99, 0, 0, 0, 1, 0, 0, 0, 7, 0, 0, 0, 0, 0, 0, 0, 8, 0, 0, 0, 0, 0, 0, 0]"

definition test_decode :: "string \<Rightarrow> exn + byte list" where
  "test_decode g =
     (if g = ''SHORT'' then Inr short_id
      else if g = ''LONG'' then Inr long_id
      else if g = ''VIDEO'' then Inr video_id
      else if g = ''ODD'' then Inr odd_id
      else if g = ''TRUNC'' then Inr (take 20 short_id)
      else if g = ''MID'' then Inr (take 30 long_id)
      else Inl BinasciiError)"

definition test_client :: "(test_world, string) client" where
  "test_client =
     \<lparr>path_exists = (\<lambda>w p. p \<in> set (files w)),
      save_file = (\<lambda>path fid part prog pargs w.
                     (Inr \<lparr>file_id = 77, is_big = False, part_count = 4\<rparr>, w)),
      decode = test_decode,
      MEDIA_TYPE_ID = [2 \<mapsto> ''video''],
      resolve_peer = (\<lambda>c w. (Inr ''peer'', w)),
      rnd_id = (\<lambda>w. (next_id w, w\<lparr>next_id := next_id w + 1\<rparr>)),
      markup_write = (\<lambda>k. k),
      html_parse = (\<lambda>c. ''html:'' @ c),
      markdown_parse = (\<lambda>c. ''md:'' @ c),
      send = (\<lambda>req w. case answers w of
                         [] \<Rightarrow> (Inl (OtherError ''no answer''), w)
                       | r # rs \<Rightarrow> (r, w\<lparr>answers := rs\<rparr>)),
      parse_messages = (\<lambda>m us cs w. (Inr m, w))\<rparr>"

definition test_args :: "string \<Rightarrow> string gif_args" where
  "test_args g =
     \<lparr>chat_id = ChatStr ''me'', gif = g, caption = [], parse_mode = [],
      duration = 5, width = 100, height = 100, thumb = None,
      disable_notification = None, reply_to_message_id = None, reply_markup = None,
      progress = None, progress_args = []\<rparr>"

definition test_state :: "(exn + string updates_response) list \<Rightarrow> (test_world, string) state" where
  "test_state rs =
     \<lparr>world = \<lparr>files = [''/tmp/clip.mp4'', ''http.gif''], answers = rs, next_id = 0\<rparr>,
      calls = []\<rparr>"

definition ok_response :: "string updates_response" where
  "ok_response = \<lparr>updates = [UpdateOther ''u'', UpdateNewMessage ''m1'', UpdateNewChannelMessage ''m2''],
                  users = [], chats = []\<rparr>"

definition empty_response :: "string updates_response" where
  "empty_response = \<lparr>updates = [], users = [], chats = []\<rparr>"

text \<open>The descriptor that the test client gets for the uploaded file \<^verbatim>\<open>/tmp/clip.mp4\<close>.\<close>

definition clip_media :: input_media where
  "clip_media =
     InputMediaUploadedDocument ''video/mp4''
       \<lparr>file_id = 77, is_big = False, part_count = 4\<rparr> None
       [DocumentAttributeVideo True 5 100 100,
        DocumentAttributeFilename ''clip.mp4'',
        DocumentAttributeAnimated]"

text \<open>A server that answers every \<open>send\<close> with a response without updates.\<close>

definition mute_client :: "(test_world, string) client" where
  "mute_client = test_client\<lparr>send := (\<lambda>req w. (Inr empty_response, w))\<rparr>"

text \<open>The identifiers of the requests sent, in order.\<close>

fun sent_ids :: "'o event list \<Rightarrow> int list" where
  "sent_ids [] = []"
| "sent_ids (EvSend req # es) = random_id req # sent_ids es"
| "sent_ids (EvSaveFile p fid part pr pa # es) = sent_ids es"
| "sent_ids (EvResolvePeer c # es) = sent_ids es"
| "sent_ids (EvParseMessages msg # es) = sent_ids es"

section \<open>Properties\<close>

subsection \<open>The test client, field by field\<close>

lemma test_client_sel:
  "path_exists test_client w p = (p \<in> set (files w))"
  "save_file test_client pa fid part pr pargs w =
     (Inr \<lparr>file_id = 77, is_big = False, part_count = 4\<rparr>, w)"
  "decode test_client = test_decode"
  "MEDIA_TYPE_ID test_client = [2 \<mapsto> ''video'']"
  "resolve_peer test_client c w = (Inr ''peer'', w)"
  "rnd_id test_client w = (next_id w, w\<lparr>next_id := next_id w + 1\<rparr>)"
  "markup_write test_client k = k"
  "html_parse test_client t = ''html:'' @ t"
  "markdown_parse test_client t = ''md:'' @ t"
  "send test_client req w =
     (case answers w of [] \<Rightarrow> (Inl (OtherError ''no answer''), w)
      | r # rs \<Rightarrow> (r, w\<lparr>answers := rs\<rparr>))"
  "parse_messages test_client msg us es w' = (Inr msg, w')"
  by (simp_all add: test_client_def)

lemma test_decode_ids:
  "test_decode ''SHORT'' = Inr short_id"
  "test_decode ''LONG'' = Inr long_id"
  "test_decode ''VIDEO'' = Inr video_id"
  "test_decode ''ODD'' = Inr odd_id"
  "test_decode ''TRUNC'' = Inr (take 20 short_id)"
  "test_decode ''MID'' = Inr (take 30 long_id)"
  by (simp_all add: test_decode_def)

lemma test_args_sel:
  "gif (test_args g) = g"
  "thumb (test_args g) = None"
  "chat_id (test_args g) = ChatStr ''me''"
  "progress (test_args g) = None"
  "progress_args (test_args g) = []"
  "duration (test_args g) = 5"
  "width (test_args g) = 100"
  "height (test_args g) = 100"
  by (simp_all add: test_args_def)

lemma test_state_sel:
  "files (world (test_state rs)) = [''/tmp/clip.mp4'', ''http.gif'']"
  "calls (test_state rs) = []"
  by (simp_all add: test_state_def)

subsection \<open>Unpacking an identifier\<close>

lemma fmt_sizes_short: "fmt_sizes ''<iiqq'' = Some [4, 4, 8, 8]"
  by (simp add: fmt_sizes_def code_size_def)

lemma fmt_sizes_long: "fmt_sizes ''<iiqqqqi'' = Some [4, 4, 8, 8, 8, 8, 4]"
  by (simp add: fmt_sizes_def code_size_def)

lemma struct_unpack_short:
  "struct_unpack ''<iiqq'' bs =
     (if length bs = 24
      then Inr [le_signed (take 4 bs), le_signed (take 4 (drop 4 bs)),
                le_signed (take 8 (drop 8 bs)), le_signed (take 8 (drop 16 bs))]
      else Inl StructError)"
  by (simp add: struct_unpack_def fmt_sizes_short)

lemma struct_unpack_long:
  "struct_unpack ''<iiqqqqi'' bs =
     (if length bs = 44
      then Inr [le_signed (take 4 bs), le_signed (take 4 (drop 4 bs)),
                le_signed (take 8 (drop 8 bs)), le_signed (take 8 (drop 16 bs)),
                le_signed (take 8 (drop 24 bs)), le_signed (take 8 (drop 32 bs)),
                le_signed (take 4 (drop 40 bs))]
      else Inl StructError)"
  by (simp add: struct_unpack_def fmt_sizes_long)

lemma decode_unpack_bytes:
  assumes "decode cl g = Inr bs"
  shows "decode_unpack cl g =
     (if length bs = 24
      then Inr [le_signed (take 4 bs), le_signed (take 4 (drop 4 bs)),
                le_signed (take 8 (drop 8 bs)), le_signed (take 8 (drop 16 bs))]
      else if length bs = 44
      then Inr [le_signed (take 4 bs), le_signed (take 4 (drop 4 bs)),
                le_signed (take 8 (drop 8 bs)), le_signed (take 8 (drop 16 bs)),
                le_signed (take 8 (drop 24 bs)), le_signed (take 8 (drop 32 bs)),
                le_signed (take 4 (drop 40 bs))]
      else Inl (FileIdInvalid None))"
  using assms
  by (simp add: decode_unpack_def choose_fmt_def struct_unpack_short struct_unpack_long
      caught_def)

text \<open>The value read from \<open>n\<close> bytes is a signed \<open>8 * n\<close>-bit integer.\<close>

lemma le_unsigned_bounds: "0 \<le> le_unsigned bs \<and> le_unsigned bs < 2 ^ (8 * length bs)"
proof (induction bs)
  case Nil
  show ?case by simp
next
  case (Cons b bs)
  have b: "0 \<le> uint b" "uint b < 256"
    using uint_lt2p [of b] by simp_all
  have "uint b + 256 * le_unsigned bs < 256 + 256 * le_unsigned bs"
    using b by simp
  also have "\<dots> = 256 * (le_unsigned bs + 1)"
    by simp
  also have "\<dots> \<le> 256 * 2 ^ (8 * length bs)"
    using Cons.IH by (intro mult_left_mono) simp_all
  finally have "uint b + 256 * le_unsigned bs < 2 ^ (8 * length (b # bs))"
    by (simp add: power_add)
  moreover have "0 \<le> uint b + 256 * le_unsigned bs"
    using b Cons.IH by simp
  ultimately show ?case by simp
qed

lemma le_signed_range:
  assumes "bs \<noteq> []"
  shows "- (2 ^ (8 * length bs - 1)) \<le> le_signed bs \<and> le_signed bs < 2 ^ (8 * length bs - 1)"
proof -
  obtain k where k: "8 * length bs = Suc k"
    using assms by (cases bs) simp_all
  have "le_unsigned bs < 2 * 2 ^ k" "0 \<le> le_unsigned bs"
    using le_unsigned_bounds [of bs] k by simp_all
  then show ?thesis
    by (simp add: le_signed_def Let_def k)
qed

lemma from_file_id_bytes:
  assumes "decode cl g = Inr bs" and "length bs = 24 \<or> length bs = 44"
  shows "from_file_id cl g =
     (if le_signed (take 4 bs) \<noteq> 10 then
        (case MEDIA_TYPE_ID cl (le_signed (take 4 bs)) of
           None \<Rightarrow> Inl (FileIdInvalid (Some (''Unknown media type: '' @ int_str (le_signed (take 4 bs)))))
         | Some media_type \<Rightarrow>
             if media_type \<noteq> [] then
               Inl (FileIdInvalid (Some (''The file_id belongs to a '' @ media_type)))
             else
               Inl (FileIdInvalid (Some (''Unknown media type: '' @ int_str (le_signed (take 4 bs))))))
      else Inr (InputMediaDocument
                  (InputDocument (le_signed (take 8 (drop 8 bs))) (le_signed (take 8 (drop 16 bs))))))"
  using assms(2)
  by (auto simp add: from_file_id_def decode_unpack_bytes [OF assms(1)] split: option.splits)

lemma resolve_file_id:
  assumes "\<not> path_exists cl (world s) (gif a)" and "\<not> startswith (gif a) ''http''"
  shows "resolve cl a s =
           (case from_file_id cl (gif a) of Inl e \<Rightarrow> (Inl e, s) | Inr m \<Rightarrow> (Inr (m, None), s))"
  using assms by (simp add: resolve_def)

lemma test_ids_not_paths:
  "\<not> path_exists test_client (world (test_state rs)) ''SHORT''"
  "\<not> path_exists test_client (world (test_state rs)) ''LONG''"
  "\<not> path_exists test_client (world (test_state rs)) ''VIDEO''"
  "\<not> path_exists test_client (world (test_state rs)) ''ODD''"
  "\<not> path_exists test_client (world (test_state rs)) ''TRUNC''"
  "\<not> path_exists test_client (world (test_state rs)) ''MID''"
  by (simp_all add: test_client_sel test_state_sel)

lemma test_ids_not_urls:
  "\<not> startswith ''SHORT'' ''http''"
  "\<not> startswith ''LONG'' ''http''"
  "\<not> startswith ''VIDEO'' ''http''"
  "\<not> startswith ''ODD'' ''http''"
  "\<not> startswith ''TRUNC'' ''http''"
  "\<not> startswith ''MID'' ''http''"
  by (simp_all add: startswith_def)

text \<open>
  C3. Whatever \<open>decode\<close> returns is unpacked with the four-field format
  \<^verbatim>\<open><iiqq\<close> when it has at most 24 bytes and with the seven-field format \<^verbatim>\<open><iiqqqqi\<close> when
  it has more. The fields are little-endian signed integers read at fixed offsets.
  A length other than 24 and 44 makes the resolution raise \<^verbatim>\<open>FileIdInvalid\<close>.
\<close>

theorem unpack_layout_by_length:
  assumes "decode cl (gif a) = Inr bs"
  shows "choose_fmt bs = (if length bs \<le> 24 then ''<iiqq'' else ''<iiqqqqi'')
       \<and> (length bs = 24 \<longrightarrow>
            decode_unpack cl (gif a) =
              Inr [le_signed (take 4 bs), le_signed (take 4 (drop 4 bs)),
                   le_signed (take 8 (drop 8 bs)), le_signed (take 8 (drop 16 bs))])
       \<and> (length bs = 44 \<longrightarrow>
            decode_unpack cl (gif a) =
              Inr [le_signed (take 4 bs), le_signed (take 4 (drop 4 bs)),
                   le_signed (take 8 (drop 8 bs)), le_signed (take 8 (drop 16 bs)),
                   le_signed (take 8 (drop 24 bs)), le_signed (take 8 (drop 32 bs)),
                   le_signed (take 4 (drop 40 bs))])
       \<and> (length bs \<noteq> 24 \<and> length bs \<noteq> 44 \<longrightarrow>
            decode_unpack cl (gif a) = Inl (FileIdInvalid None))
       \<and> (length bs \<noteq> 24 \<and> length bs \<noteq> 44
            \<and> \<not> path_exists cl (world s) (gif a) \<and> \<not> startswith (gif a) ''http'' \<longrightarrow>
            resolve cl a s = (Inl (FileIdInvalid None), s))"
proof -
  have fmt: "choose_fmt bs = (if length bs \<le> 24 then ''<iiqq'' else ''<iiqqqqi'')"
    by (simp add: choose_fmt_def)
  have bad: "decode_unpack cl (gif a) = Inl (FileIdInvalid None)"
    if "length bs \<noteq> 24 \<and> length bs \<noteq> 44"
    using that by (simp add: decode_unpack_bytes [OF assms])
  have res: "resolve cl a s = (Inl (FileIdInvalid None), s)"
    if "length bs \<noteq> 24 \<and> length bs \<noteq> 44
          \<and> \<not> path_exists cl (world s) (gif a) \<and> \<not> startswith (gif a) ''http''"
    using that bad by (simp add: resolve_file_id from_file_id_def)
  show ?thesis
    using fmt bad res by (simp add: decode_unpack_bytes [OF assms])
qed

theorem unpack_layout_by_length_witness:
  "decode_unpack test_client ''SHORT'' = Inr [10, 1, 7, 8]
   \<and> decode_unpack test_client ''LONG'' = Inr [10, 1, 7, 8, 5, 6, 3]
   \<and> resolve test_client (test_args ''TRUNC'') (test_state []) =
       (Inl (FileIdInvalid None), test_state [])
   \<and> resolve test_client (test_args ''MID'') (test_state []) =
       (Inl (FileIdInvalid None), test_state [])"
proof -
  have d: "decode test_client (gif (test_args ''SHORT'')) = Inr short_id"
    "decode test_client (gif (test_args ''LONG'')) = Inr long_id"
    "decode test_client (gif (test_args ''TRUNC'')) = Inr (take 20 short_id)"
    "decode test_client (gif (test_args ''MID'')) = Inr (take 30 long_id)"
    by (simp_all add: test_client_sel test_decode_ids test_args_sel)
  have "decode_unpack test_client ''SHORT'' = Inr [10, 1, 7, 8]"
    using unpack_layout_by_length [OF d(1), of "test_state []"]
    by (simp add: test_args_sel short_id_def le_signed_def)
  moreover have "decode_unpack test_client ''LONG'' = Inr [10, 1, 7, 8, 5, 6, 3]"
    using unpack_layout_by_length [OF d(2), of "test_state []"]
    by (simp add: test_args_sel long_id_def le_signed_def)
  moreover have "resolve test_client (test_args ''TRUNC'') (test_state []) =
       (Inl (FileIdInvalid None), test_state [])"
    using unpack_layout_by_length [OF d(3), of "test_state []"] test_ids_not_paths [of "[]"] test_ids_not_urls
    by (simp add: test_args_sel short_id_def)
  moreover have "resolve test_client (test_args ''MID'') (test_state []) =
       (Inl (FileIdInvalid None), test_state [])"
    using unpack_layout_by_length [OF d(4), of "test_state []"] test_ids_not_paths [of "[]"] test_ids_not_urls
    by (simp add: test_args_sel long_id_def)
  ultimately show ?thesis by simp
qed

subsection \<open>Resolving a file id\<close>

text \<open>
  C2, as stated, fails on the seven-field layout: the source reads \<^verbatim>\<open>unpacked[2]\<close> and
  \<^verbatim>\<open>unpacked[3]\<close> whatever the layout. The 44-byte identifier with the fields
  10, 1, 7, 8, 5, 6, 3 resolves to the document 7, 8 (third and fourth field), not to
  5, 6 (fifth and sixth field).
\<close>

theorem referenced_document_long_form_counterexample:
  "decode_unpack test_client ''LONG'' = Inr [10, 1, 7, 8, 5, 6, 3]
   \<and> resolve test_client (test_args ''LONG'') (test_state []) =
       (Inr (InputMediaDocument (InputDocument 7 8), None), test_state [])
   \<and> resolve test_client (test_args ''LONG'') (test_state []) \<noteq>
       (Inr (InputMediaDocument (InputDocument 5 6), None), test_state [])"
proof -
  have d: "decode test_client ''LONG'' = Inr long_id"
    by (simp add: test_client_sel test_decode_ids)
  have u: "decode_unpack test_client ''LONG'' = Inr [10, 1, 7, 8, 5, 6, 3]"
    by (simp add: decode_unpack_bytes [OF d] long_id_def le_signed_def)
  have "resolve test_client (test_args ''LONG'') (test_state []) =
       (Inr (InputMediaDocument (InputDocument 7 8), None), test_state [])"
    using test_ids_not_paths [of "[]"] test_ids_not_urls
    by (simp add: resolve_file_id test_args_sel from_file_id_def u)
  with u show ?thesis by simp
qed

text \<open>
  C2, amended. An identifier that decodes to 24 or 44 bytes whose first field is 10
  resolves to \<open>InputMediaDocument\<close> with \<open>id\<close> and \<open>access_hash\<close> read from bytes 8 to 15
  and 16 to 23, the third and fourth field of either layout. The state is returned as
  it was and \<open>file\<close> stays \<open>None\<close>: nothing is uploaded.
\<close>

theorem referenced_document_fields:
  assumes "\<not> path_exists cl (world s) (gif a)"
    and "\<not> startswith (gif a) ''http''"
    and "decode cl (gif a) = Inr bs"
    and "length bs = 24 \<or> length bs = 44"
    and "le_signed (take 4 bs) = 10"
  shows "resolve cl a s =
           (Inr (InputMediaDocument
                   (InputDocument (le_signed (take 8 (drop 8 bs)))
                                  (le_signed (take 8 (drop 16 bs)))), None), s)"
  using assms(1,2,5) by (simp add: resolve_file_id from_file_id_bytes [OF assms(3,4)])

theorem referenced_document_fields_witness:
  "resolve test_client (test_args ''SHORT'') (test_state []) =
     (Inr (InputMediaDocument (InputDocument 7 8), None), test_state [])"
proof -
  have "decode test_client (gif (test_args ''SHORT'')) = Inr short_id"
    by (simp add: test_client_sel test_decode_ids test_args_sel)
  moreover have "\<not> path_exists test_client (world (test_state [])) (gif (test_args ''SHORT''))"
    "\<not> startswith (gif (test_args ''SHORT'')) ''http''"
    using test_ids_not_paths [of "[]"] test_ids_not_urls by (simp_all add: test_args_sel)
  moreover have "length short_id = 24 \<or> length short_id = 44"
    by (simp add: short_id_def)
  moreover have "le_signed (take 4 short_id) = 10"
    by (simp add: short_id_def le_signed_def)
  ultimately show ?thesis
    using referenced_document_fields [of test_client "test_state []" "test_args ''SHORT''" short_id]
    by (simp add: short_id_def le_signed_def)
qed

lemma send_gif_resolve_error:
  "resolve cl a s = (Inl e, s1) \<Longrightarrow> send_gif cl a s = Some (Inl e, s1)"
  by (simp add: send_gif_def)

text \<open>
  C6. An identifier that decodes to 24 or 44 bytes whose first field \<open>k\<close> is not 10:
  when the table maps \<open>k\<close> to a name, \<open>send_gif\<close> raises \<^verbatim>\<open>FileIdInvalid\<close> with the message
  "The file_id belongs to a" followed by the name; when the table has no entry for \<open>k\<close>
  the message is "Unknown media type:" followed by \<open>k\<close> in decimal. The state is
  returned as it was: no call has been made. (The source tests the looked-up name for
  truth, so the names of the table are taken to be non-empty.)
\<close>

theorem wrong_or_unknown_media_type:
  assumes "\<not> path_exists cl (world s) (gif a)"
    and "\<not> startswith (gif a) ''http''"
    and "decode cl (gif a) = Inr bs"
    and "length bs = 24 \<or> length bs = 44"
    and "le_signed (take 4 bs) = k"
    and "k \<noteq> 10"
  shows "(\<forall>name. MEDIA_TYPE_ID cl k = Some name \<and> name \<noteq> [] \<longrightarrow>
            send_gif cl a s =
              Some (Inl (FileIdInvalid (Some (''The file_id belongs to a '' @ name))), s))
       \<and> (MEDIA_TYPE_ID cl k = None \<longrightarrow>
            send_gif cl a s =
              Some (Inl (FileIdInvalid (Some (''Unknown media type: '' @ int_str k))), s))"
  using assms(1,2,5,6)
  by (auto simp add: resolve_file_id from_file_id_bytes [OF assms(3,4)]
      intro!: send_gif_resolve_error)

theorem wrong_or_unknown_media_type_witness:
  "send_gif test_client (test_args ''VIDEO'') (test_state []) =
     Some (Inl (FileIdInvalid (Some ''The file_id belongs to a video'')), test_state [])
   \<and> send_gif test_client (test_args ''ODD'') (test_state []) =
     Some (Inl (FileIdInvalid (Some ''Unknown media type: 99'')), test_state [])"
proof -
  have v: "decode test_client (gif (test_args ''VIDEO'')) = Inr video_id"
    and o: "decode test_client (gif (test_args ''ODD'')) = Inr odd_id"
    by (simp_all add: test_client_sel test_decode_ids test_args_sel)
  have p: "\<not> path_exists test_client (world (test_state [])) (gif (test_args ''VIDEO''))"
    "\<not> startswith (gif (test_args ''VIDEO'')) ''http''"
    "\<not> path_exists test_client (world (test_state [])) (gif (test_args ''ODD''))"
    "\<not> startswith (gif (test_args ''ODD'')) ''http''"
    using test_ids_not_paths [of "[]"] test_ids_not_urls by (simp_all add: test_args_sel)
  have lv: "length video_id = 24 \<or> length video_id = 44"
    and lo: "length odd_id = 24 \<or> length odd_id = 44"
    by (simp_all add: video_id_def odd_id_def)
  have kv: "le_signed (take 4 video_id) = 2" and ko: "le_signed (take 4 odd_id) = 99"
    by (simp_all add: video_id_def odd_id_def le_signed_def)
  have s99: "int_str 99 = ''99''"
    by (simp add: int_str_def nat_str.simps digit_char_def)
  have "send_gif test_client (test_args ''VIDEO'') (test_state []) =
     Some (Inl (FileIdInvalid (Some ''The file_id belongs to a video'')), test_state [])"
    using wrong_or_unknown_media_type [OF p(1,2) v lv kv]
    by (simp add: test_client_sel)
  moreover have "send_gif test_client (test_args ''ODD'') (test_state []) =
     Some (Inl (FileIdInvalid (Some ''Unknown media type: 99'')), test_state [])"
    using wrong_or_unknown_media_type [OF p(3,4) o lo ko]
    by (simp add: test_client_sel s99)
  ultimately show ?thesis by simp
qed

subsection \<open>The three branches of the resolution\<close>

text \<open>\<open>basename\<close> is the part of the path after its last slash.\<close>

lemma basename_no_slash: "CHR ''/'' \<notin> set (basename p)"
  by (induction p) auto

lemma basename_suffix:
  "\<exists>d. p = d @ basename p \<and> (d = [] \<or> last d = CHR ''/'')"
proof (induction p)
  case Nil
  show ?case by simp
next
  case (Cons c cs)
  then obtain d where d: "cs = d @ basename cs" "d = [] \<or> last d = CHR ''/''"
    by blast
  show ?case
  proof (cases "CHR ''/'' \<in> set cs")
    case True
    then have "d \<noteq> []"
      using d(1) basename_no_slash [of cs] by (cases d) auto
    then have "c # cs = (c # d) @ basename (c # cs) \<and> last (c # d) = CHR ''/''"
      using True d by simp
    then show ?thesis by blast
  next
    case False
    show ?thesis
    proof (cases "c = CHR ''/''")
      case True
      with False have "c # cs = [c] @ basename (c # cs) \<and> last [c] = CHR ''/''"
        by simp
      then show ?thesis by blast
    next
      case c: False
      with False have "c # cs = [] @ basename (c # cs)"
        by simp
      then show ?thesis by blast
    qed
  qed
qed

lemma resolve_local:
  assumes "path_exists cl (world s) (gif a)"
  shows "resolve cl a s =
     (case (case thumb a of
              None \<Rightarrow> (Inr None, s)
            | Some t \<Rightarrow> (case call_save_file cl t None 0 None [] s of
                           (Inl e, s1) \<Rightarrow> (Inl e, s1)
                         | (Inr th, s1) \<Rightarrow> (Inr (Some th), s1))) of
        (Inl e, s1) \<Rightarrow> (Inl e, s1)
      | (Inr th, s1) \<Rightarrow>
          (case call_save_file cl (gif a) None 0 (progress a) (progress_args a) s1 of
             (Inl e, s2) \<Rightarrow> (Inl e, s2)
           | (Inr f, s2) \<Rightarrow>
               (Inr (InputMediaUploadedDocument types_map_mp4 f th
                       [DocumentAttributeVideo True (duration a) (width a) (height a),
                        DocumentAttributeFilename (basename (gif a)),
                        DocumentAttributeAnimated],
                     Some f), s2)))"
  using assms by (simp add: resolve_def)

lemma call_save_file_calls:
  "call_save_file cl p fid part pr pa s = (r, s') \<Longrightarrow>
     calls s' = calls s @ [EvSaveFile p fid part pr pa]"
  by (auto simp add: call_save_file_def split: prod.splits)

lemma resolve_local_descriptor:
  assumes "path_exists cl (world s) (gif a)"
    and "resolve cl a s = (Inr (m, fl), s')"
  shows "\<exists>f th. m = InputMediaUploadedDocument ''video/mp4'' f th
                     [DocumentAttributeVideo True (duration a) (width a) (height a),
                      DocumentAttributeFilename (basename (gif a)),
                      DocumentAttributeAnimated]
               \<and> fl = Some f"
  using assms(2) unfolding resolve_local [OF assms(1)]
  by (auto simp add: types_map_mp4_def split: option.splits prod.splits sum.splits)

text \<open>
  C7. When the path exists and the uploads succeed, the descriptor is
  \<open>InputMediaUploadedDocument\<close> with the mime type \<^verbatim>\<open>video/mp4\<close>, the uploaded file, and
  exactly three attributes: the video attribute with \<open>supports_streaming\<close> true and the
  caller's duration, width and height, the file name attribute with the base name of
  the path, and the animated attribute.
\<close>

theorem uploaded_document_descriptor:
  assumes "path_exists cl (world s) (gif a)"
    and "resolve cl a s = (Inr (m, file), s')"
  shows "\<exists>f th. m = InputMediaUploadedDocument ''video/mp4'' f th
                     [DocumentAttributeVideo True (duration a) (width a) (height a),
                      DocumentAttributeFilename (basename (gif a)),
                      DocumentAttributeAnimated]
               \<and> file = Some f"
  using assms by (rule resolve_local_descriptor)

theorem uploaded_document_descriptor_witness:
  "path_exists test_client (world (test_state [])) ''/tmp/clip.mp4''
   \<and> (\<exists>f th. fst (resolve test_client (test_args ''/tmp/clip.mp4'') (test_state [])) =
                Inr (InputMediaUploadedDocument ''video/mp4'' f th
                       [DocumentAttributeVideo True 5 100 100,
                        DocumentAttributeFilename ''clip.mp4'',
                        DocumentAttributeAnimated], Some f))"
proof -
  let ?a = "test_args ''/tmp/clip.mp4''"
  let ?f = "\<lparr>file_id = 77, is_big = False, part_count = 4\<rparr>"
  have e: "path_exists test_client (world (test_state [])) (gif ?a)"
    by (simp add: test_client_sel test_state_sel test_args_sel)
  obtain m fl s' where r: "resolve test_client ?a (test_state []) = (Inr (m, fl), s')"
    by (simp add: resolve_local [OF e] call_save_file_def test_client_sel test_args_sel)
  show ?thesis
    using uploaded_document_descriptor [OF e r] e r by (auto simp add: test_args_sel)
qed

text \<open>
  C4. The branch is chosen in the order of the source. A path that exists is uploaded,
  whatever its first letters: the first call is a \<open>save_file\<close> (of the thumbnail when there
  is one, of the file otherwise), and a descriptor, when one results, is the uploaded
  document. A string that is not an existing path and starts with \<^verbatim>\<open>http\<close> becomes the
  external document, without a call and whatever \<open>decode\<close> would make of it. Any other
  string is taken as a file id: the result is that of \<open>from_file_id\<close>, which is an error or
  \<open>InputMediaDocument\<close>.
\<close>

theorem resolution_order:
  "(path_exists cl (world s) (gif a) \<longrightarrow>
      (\<forall>m file. fst (resolve cl a s) = Inr (m, file) \<longrightarrow>
         (\<exists>mt f th at. m = InputMediaUploadedDocument mt f th at \<and> file = Some f))
      \<and> (\<exists>p pr pa rest.
            calls (snd (resolve cl a s)) = calls s @ EvSaveFile p None 0 pr pa # rest))
   \<and> (\<not> path_exists cl (world s) (gif a) \<and> startswith (gif a) ''http'' \<longrightarrow>
        resolve cl a s = (Inr (InputMediaDocumentExternal (gif a), None), s))
   \<and> (\<not> path_exists cl (world s) (gif a) \<and> \<not> startswith (gif a) ''http'' \<longrightarrow>
        resolve cl a s =
          (case from_file_id cl (gif a) of
             Inl e \<Rightarrow> (Inl e, s)
           | Inr m \<Rightarrow> (Inr (m, None), s))
        \<and> (\<forall>m. from_file_id cl (gif a) = Inr m \<longrightarrow> (\<exists>d. m = InputMediaDocument d)))"
proof -
  have local_media: "\<exists>mt f th at. m = InputMediaUploadedDocument mt f th at \<and> fl = Some f"
    if ex: "path_exists cl (world s) (gif a)" and rs: "fst (resolve cl a s) = Inr (m, fl)" for m fl
  proof -
    obtain s' where "resolve cl a s = (Inr (m, fl), s')"
      using rs by (cases "resolve cl a s") simp
    from resolve_local_descriptor [OF ex this] show ?thesis by blast
  qed
  have local_call:
    "\<exists>p pr pa rest. calls (snd (resolve cl a s)) = calls s @ EvSaveFile p None 0 pr pa # rest"
    if e: "path_exists cl (world s) (gif a)"
  proof (cases "thumb a")
    case None
    obtain r s2 where c: "call_save_file cl (gif a) None 0 (progress a) (progress_args a) s = (r, s2)"
      by (cases "call_save_file cl (gif a) None 0 (progress a) (progress_args a) s")
    have "calls (snd (resolve cl a s)) = calls s2"
      using None c by (simp add: resolve_local [OF e] split: sum.splits)
    then show ?thesis
      using call_save_file_calls [OF c] by simp
  next
    case (Some t)
    obtain r s1 where c1: "call_save_file cl t None 0 None [] s = (r, s1)"
      by (cases "call_save_file cl t None 0 None [] s")
    note k1 = call_save_file_calls [OF c1]
    show ?thesis
    proof (cases r)
      case (Inl e')
      then have "calls (snd (resolve cl a s)) = calls s1"
        using Some c1 by (simp add: resolve_local [OF e])
      then show ?thesis using k1 by simp
    next
      case (Inr th)
      obtain r2 s2 where
        c2: "call_save_file cl (gif a) None 0 (progress a) (progress_args a) s1 = (r2, s2)"
        by (cases "call_save_file cl (gif a) None 0 (progress a) (progress_args a) s1")
      have "calls (snd (resolve cl a s)) = calls s2"
        using Some c1 Inr c2 by (simp add: resolve_local [OF e] split: sum.splits)
      then show ?thesis
        using k1 call_save_file_calls [OF c2] by simp
    qed
  qed
  have url: "resolve cl a s = (Inr (InputMediaDocumentExternal (gif a), None), s)"
    if "\<not> path_exists cl (world s) (gif a) \<and> startswith (gif a) ''http''"
    using that by (simp add: resolve_def)
  have fid: "\<exists>d. m = InputMediaDocument d" if "from_file_id cl (gif a) = Inr m" for m
    using that by (auto simp add: from_file_id_def split: sum.splits option.splits if_splits)
  show ?thesis
    using local_media local_call url fid resolve_file_id [of cl s a] by blast
qed

theorem resolution_order_witness:
  "startswith ''http.gif'' ''http''
   \<and> (\<exists>mt f th at. fst (resolve test_client (test_args ''http.gif'') (test_state [])) =
                       Inr (InputMediaUploadedDocument mt f th at, Some f))
   \<and> resolve test_client (test_args ''http://x'') (test_state []) =
       (Inr (InputMediaDocumentExternal ''http://x'', None), test_state [])"
proof -
  let ?a = "test_args ''http.gif''"
  let ?f = "\<lparr>file_id = 77, is_big = False, part_count = 4\<rparr>"
  have e: "path_exists test_client (world (test_state [])) (gif ?a)"
    by (simp add: test_client_sel test_state_sel test_args_sel)
  have r: "fst (resolve test_client ?a (test_state [])) =
      Inr (InputMediaUploadedDocument ''video/mp4'' ?f None
              [DocumentAttributeVideo True 5 100 100,
               DocumentAttributeFilename ''http.gif'',
               DocumentAttributeAnimated], Some ?f)"
    by (simp add: resolve_local [OF e] call_save_file_def test_client_sel test_args_sel
        test_state_sel types_map_mp4_def)
  have n: "\<not> path_exists test_client (world (test_state [])) (gif (test_args ''http://x''))"
    "startswith (gif (test_args ''http://x'')) ''http''"
    by (simp_all add: test_client_sel test_state_sel test_args_sel startswith_def)
  have "startswith ''http.gif'' ''http''"
    by (simp add: startswith_def)
  moreover have "\<exists>mt f th at. fst (resolve test_client ?a (test_state [])) =
                       Inr (InputMediaUploadedDocument mt f th at, Some f)"
    using resolution_order [of test_client "test_state []" ?a] e r by simp
  moreover have "resolve test_client (test_args ''http://x'') (test_state []) =
       (Inr (InputMediaDocumentExternal ''http://x'', None), test_state [])"
    using resolution_order [of test_client "test_state []" "test_args ''http://x''"] n
    by (simp add: test_args_sel)
  ultimately show ?thesis by simp
qed

subsection \<open>One pass of the send loop\<close>

lemma try_send_sent:
  assumes "resolve_peer cl (chat_id a) (world s) = (Inr p, w1)"
    and "rnd_id cl w1 = (rid, w2)"
    and "send cl (send_media_request cl a m p rid) w2 = (r, w3)"
  shows "try_send cl a m s =
           (r, \<lparr>world = w3,
                calls = calls s @ [EvResolvePeer (chat_id a),
                                   EvSend (send_media_request cl a m p rid)]\<rparr>)"
  using assms by (simp add: try_send_def call_resolve_peer_def call_send_def)

lemma attempt_missing_none:
  "try_send cl a m s = (Inl (FilePartMissing x), s1) \<Longrightarrow>
     attempt cl a m None s = (Raise (AttributeError none_has_no_id), s1)"
  by (simp add: attempt_def)

lemma attempt_missing_some:
  "try_send cl a m s = (Inl (FilePartMissing x), s1) \<Longrightarrow>
     attempt cl a m (Some f) s =
       (case call_save_file cl (gif a) (Some (file_id f)) x None [] s1 of
          (Inl e', s2) \<Rightarrow> (Raise e', s2)
        | (Inr h, s2) \<Rightarrow> (Continue, s2))"
  by (simp add: attempt_def)

lemma attempt_other:
  "try_send cl a m s = (Inl e, s1) \<Longrightarrow> \<forall>x. e \<noteq> FilePartMissing x \<Longrightarrow>
     attempt cl a m fl s = (Raise e, s1)"
  by (cases e) (simp_all add: attempt_def)

lemma attempt_answer:
  "try_send cl a m s = (Inr r, s1) \<Longrightarrow>
     attempt cl a m fl s =
       (case first_new_message (updates r) of
          None \<Rightarrow> (Continue, s1)
        | Some msg \<Rightarrow>
            (case call_parse_messages cl msg (by_id (users r)) (by_id (chats r)) s1 of
               (Inl e, s2) \<Rightarrow> (Raise e, s2)
             | (Inr res, s2) \<Rightarrow> (Return res, s2)))"
  by (simp add: attempt_def)

lemma send_loop_Return:
  "attempt cl a m fl s = (Return res, s') \<Longrightarrow> send_loop cl a m fl s = Some (Inr res, s')"
  by (subst send_loop.simps) simp

lemma send_loop_Raise:
  "attempt cl a m fl s = (Raise e, s') \<Longrightarrow> send_loop cl a m fl s = Some (Inl e, s')"
  by (subst send_loop.simps) simp

lemma send_loop_Continue:
  "attempt cl a m fl s = (Continue, s') \<Longrightarrow> send_loop cl a m fl s = send_loop cl a m fl s'"
  by (subst send_loop.simps) simp

text \<open>What a pass adds to the record of calls.\<close>

lemma try_send_calls:
  "(\<exists>e. try_send cl a m s =
          (Inl e, \<lparr>world = world (snd (try_send cl a m s)),
                   calls = calls s @ [EvResolvePeer (chat_id a)]\<rparr>))
   \<or> (\<exists>p rid. calls (snd (try_send cl a m s)) =
          calls s @ [EvResolvePeer (chat_id a), EvSend (send_media_request cl a m p rid)])"
proof (cases "resolve_peer cl (chat_id a) (world s)")
  case (Pair r w1)
  show ?thesis
  proof (cases r)
    case (Inl e)
    with Pair show ?thesis
      by (simp add: try_send_def call_resolve_peer_def)
  next
    case (Inr p)
    obtain rid w2 where 2: "rnd_id cl w1 = (rid, w2)"
      by (cases "rnd_id cl w1")
    obtain r' w3 where 3: "send cl (send_media_request cl a m p rid) w2 = (r', w3)"
      by (cases "send cl (send_media_request cl a m p rid) w2")
    from Pair Inr have 1: "resolve_peer cl (chat_id a) (world s) = (Inr p, w1)"
      by simp
    have "calls (snd (try_send cl a m s)) =
            calls s @ [EvResolvePeer (chat_id a), EvSend (send_media_request cl a m p rid)]"
      by (simp add: try_send_sent [OF 1 2 3])
    then show ?thesis by blast
  qed
qed

lemma call_parse_messages_calls:
  "call_parse_messages cl msg us es s = (r, s') \<Longrightarrow> calls s' = calls s @ [EvParseMessages msg]"
  by (auto simp add: call_parse_messages_def split: prod.splits)

lemma attempt_calls:
  "\<exists>tl. calls (snd (attempt cl a m fl s)) = calls (snd (try_send cl a m s)) @ tl
        \<and> (\<forall>req. EvSend req \<notin> set tl)"
proof (cases "try_send cl a m s")
  case (Pair r s1)
  show ?thesis
  proof (cases r)
    case (Inr resp)
    with Pair have t: "try_send cl a m s = (Inr resp, s1)" by simp
    show ?thesis
    proof (cases "first_new_message (updates resp)")
      case None
      then show ?thesis by (simp add: attempt_answer [OF t] t)
    next
      case (Some msg)
      obtain r2 s2 where
        c: "call_parse_messages cl msg (by_id (users resp)) (by_id (chats resp)) s1 = (r2, s2)"
        by (cases "call_parse_messages cl msg (by_id (users resp)) (by_id (chats resp)) s1")
      have "calls (snd (attempt cl a m fl s)) = calls s2"
        using Some c by (simp add: attempt_answer [OF t] split: sum.splits)
      then show ?thesis
        using call_parse_messages_calls [OF c] t by simp
    qed
  next
    case (Inl e)
    with Pair have t: "try_send cl a m s = (Inl e, s1)" by simp
    show ?thesis
    proof (cases "\<exists>x. e = FilePartMissing x")
      case False
      then show ?thesis by (simp add: attempt_other [OF t] t)
    next
      case True
      then obtain x where x: "e = FilePartMissing x" by blast
      show ?thesis
      proof (cases fl)
        case None
        then show ?thesis using t x by (simp add: attempt_missing_none)
      next
        case (Some f)
        obtain r2 s2 where
          c: "call_save_file cl (gif a) (Some (file_id f)) x None [] s1 = (r2, s2)"
          by (cases "call_save_file cl (gif a) (Some (file_id f)) x None [] s1")
        have "calls (snd (attempt cl a m fl s)) = calls s2"
          using Some c t x by (simp add: attempt_missing_some split: sum.splits)
        then show ?thesis
          using call_save_file_calls [OF c] t by simp
      qed
    qed
  qed
qed

lemma attempt_sends:
  assumes "EvSend req \<in> set (drop (length (calls s)) (calls (snd (attempt cl a m fl s))))"
  shows "\<exists>p rid. req = send_media_request cl a m p rid"
proof -
  obtain tl where tl: "calls (snd (attempt cl a m fl s)) = calls (snd (try_send cl a m s)) @ tl"
    "\<forall>req. EvSend req \<notin> set tl"
    using attempt_calls by blast
  from try_send_calls [of cl a m s] show ?thesis
  proof
    assume "\<exists>e. try_send cl a m s =
          (Inl e, \<lparr>world = world (snd (try_send cl a m s)),
                   calls = calls s @ [EvResolvePeer (chat_id a)]\<rparr>)"
    then obtain e where "try_send cl a m s =
          (Inl e, \<lparr>world = world (snd (try_send cl a m s)),
                   calls = calls s @ [EvResolvePeer (chat_id a)]\<rparr>)" ..
    then have "calls (snd (try_send cl a m s)) = calls s @ [EvResolvePeer (chat_id a)]"
      by (metis snd_conv state.select_convs(2))
    with assms tl show ?thesis by auto
  next
    assume "\<exists>p rid. calls (snd (try_send cl a m s)) =
          calls s @ [EvResolvePeer (chat_id a), EvSend (send_media_request cl a m p rid)]"
    then obtain p rid where "calls (snd (try_send cl a m s)) =
          calls s @ [EvResolvePeer (chat_id a), EvSend (send_media_request cl a m p rid)]"
      by blast
    with assms tl show ?thesis by auto
  qed
qed

text \<open>The first update of one of the two classes is the one whose message is taken.\<close>

lemma first_new_message_Some:
  "first_new_message us = Some msg \<Longrightarrow>
     \<exists>pre u rest. us = pre @ u # rest
       \<and> (u = UpdateNewMessage msg \<or> u = UpdateNewChannelMessage msg)
       \<and> (\<forall>v \<in> set pre. \<exists>o'. v = UpdateOther o')"
proof (induction us rule: first_new_message.induct)
  case 1
  then show ?case by simp
next
  case (2 m us)
  then have "UpdateNewMessage m # us = [] @ UpdateNewMessage msg # us" by simp
  then show ?case by (metis empty_iff list.set(1))
next
  case (3 m us)
  then have "UpdateNewChannelMessage m # us = [] @ UpdateNewChannelMessage msg # us" by simp
  then show ?case by (metis empty_iff list.set(1))
next
  case (4 u us)
  then obtain pre v rest where
    p: "us = pre @ v # rest" "v = UpdateNewMessage msg \<or> v = UpdateNewChannelMessage msg"
       "\<forall>v \<in> set pre. \<exists>o'. v = UpdateOther o'"
    by auto
  have "UpdateOther u # us = (UpdateOther u # pre) @ v # rest"
    using p(1) by simp
  moreover have "\<forall>v \<in> set (UpdateOther u # pre). \<exists>o'. v = UpdateOther o'"
    using p(3) by simp
  ultimately show ?case using p(2) by blast
qed

lemma first_new_message_None:
  "first_new_message us = None \<Longrightarrow> \<forall>v \<in> set us. \<exists>o'. v = UpdateOther o'"
  by (induction us rule: first_new_message.induct) simp_all

text \<open>The loop does not return for the server that never sends an update.\<close>

lemma mute_client_sel:
  "resolve_peer mute_client c w = (Inr ''peer'', w)"
  "rnd_id mute_client w = (next_id w, w\<lparr>next_id := next_id w + 1\<rparr>)"
  "send mute_client req w = (Inr empty_response, w)"
  "path_exists mute_client w p = (p \<in> set (files w))"
  by (simp_all add: mute_client_def test_client_def)

lemma mute_attempt: "\<exists>s'. attempt mute_client a m fl s = (Continue, s')"
proof -
  obtain s1 where "try_send mute_client a m s = (Inr empty_response, s1)"
    by (simp add: try_send_def call_resolve_peer_def call_send_def mute_client_sel)
  from attempt_answer [OF this] show ?thesis
    by (simp add: empty_response_def)
qed

lemma mute_no_result:
  assumes "send_loop cl a m fl s = Some y"
  shows "cl \<noteq> mute_client"
proof (rule send_loop.raw_induct [where P = "\<lambda>cl a m fl s y. cl \<noteq> mute_client", OF _ assms])
  fix loop :: "(test_world, string) client \<Rightarrow> string gif_args \<Rightarrow> input_media
                 \<Rightarrow> input_file option \<Rightarrow> (test_world, string) state
                 \<Rightarrow> ((exn + string) \<times> (test_world, string) state) option"
  fix cl a m fl s y
  assume IH: "\<And>cl a m fl s y. loop cl a m fl s = Some y \<Longrightarrow> cl \<noteq> mute_client"
    and eq: "(case attempt cl a m fl s of
                (Return res, s') \<Rightarrow> Some (Inr res, s')
              | (Raise e, s') \<Rightarrow> Some (Inl e, s')
              | (Continue, s') \<Rightarrow> loop cl a m fl s') = Some y"
  show "cl \<noteq> mute_client"
  proof
    assume c: "cl = mute_client"
    obtain s' where "attempt mute_client a m fl s = (Continue, s')"
      using mute_attempt by blast
    with eq c have "loop mute_client a m fl s' = Some y" by simp
    from IH [OF this] show False by simp
  qed
qed

lemma mute_never_returns: "send_loop mute_client a m fl s = None"
  using mute_no_result [of mute_client a m fl s]
  by (cases "send_loop mute_client a m fl s") auto

subsection \<open>A missing file part without an upload\<close>

lemma resolve_no_file:
  assumes "\<not> path_exists cl (world s) (gif a)" and "resolve cl a s = (Inr (m, fl), s1)"
  shows "fl = None \<and> s1 = s"
  using assms by (auto simp add: resolve_def split: if_splits sum.splits)

text \<open>
  C9. When \<open>gif\<close> is not an existing path, the resolution leaves \<open>file\<close> at \<open>None\<close> and
  makes no call. If a \<open>send\<close> of the loop then fails with \<^verbatim>\<open>FilePartMissing\<close>, the handler
  evaluates \<^verbatim>\<open>file.id\<close> on \<open>None\<close>: the loop ends with \<^verbatim>\<open>AttributeError\<close>, not with the
  missing-part error, and \<open>save_file\<close> is not called. This holds in whatever state \<open>t\<close>
  the pass starts, so in the first pass of \<open>send_gif\<close> too.
\<close>

theorem missing_part_without_upload:
  assumes "\<not> path_exists cl (world s) (gif a)"
    and "resolve cl a s = (Inr (m, fl), s1)"
    and "resolve_peer cl (chat_id a) (world t) = (Inr p, w1)"
    and "rnd_id cl w1 = (rid, w2)"
    and "send cl (send_media_request cl a m p rid) w2 = (Inl (FilePartMissing x), w3)"
  shows "fl = None \<and> s1 = s
       \<and> send_loop cl a m fl t =
           Some (Inl (AttributeError none_has_no_id),
                 \<lparr>world = w3,
                  calls = calls t @ [EvResolvePeer (chat_id a),
                                     EvSend (send_media_request cl a m p rid)]\<rparr>)
       \<and> (t = s \<longrightarrow>
            send_gif cl a s =
              Some (Inl (AttributeError none_has_no_id),
                    \<lparr>world = w3,
                     calls = calls s @ [EvResolvePeer (chat_id a),
                                        EvSend (send_media_request cl a m p rid)]\<rparr>))"
proof -
  have n: "fl = None" "s1 = s"
    using resolve_no_file [OF assms(1,2)] by simp_all
  have l: "send_loop cl a m None t =
           Some (Inl (AttributeError none_has_no_id),
                 \<lparr>world = w3,
                  calls = calls t @ [EvResolvePeer (chat_id a),
                                     EvSend (send_media_request cl a m p rid)]\<rparr>)"
    by (rule send_loop_Raise, rule attempt_missing_none, rule try_send_sent [OF assms(3,4,5)])
  have "send_gif cl a s = send_loop cl a m None s"
    using assms(2) n by (simp add: send_gif_def)
  with n l show ?thesis by auto
qed

theorem missing_part_without_upload_witness:
  "send_gif test_client (test_args ''http://x'') (test_state [Inl (FilePartMissing 3)]) =
     Some (Inl (AttributeError none_has_no_id),
           \<lparr>world = \<lparr>files = [''/tmp/clip.mp4'', ''http.gif''], answers = [], next_id = 1\<rparr>,
            calls = [EvResolvePeer (ChatStr ''me''),
                     EvSend (send_media_request test_client (test_args ''http://x'')
                               (InputMediaDocumentExternal ''http://x'') ''peer'' 0)]\<rparr>)"
proof -
  let ?a = "test_args ''http://x''" and ?s = "test_state [Inl (FilePartMissing 3)]"
  let ?m = "InputMediaDocumentExternal ''http://x''"
  have 1: "\<not> path_exists test_client (world ?s) (gif ?a)"
    by (simp add: test_client_sel test_state_sel test_args_sel)
  have 2: "resolve test_client ?a ?s = (Inr (?m, None), ?s)"
    using 1 by (simp add: resolve_def test_args_sel startswith_def)
  have 3: "resolve_peer test_client (chat_id ?a) (world ?s) = (Inr ''peer'', world ?s)"
    by (simp add: test_client_sel)
  have 4: "rnd_id test_client (world ?s) = (0, (world ?s)\<lparr>next_id := 1\<rparr>)"
    by (simp add: test_client_sel test_state_def)
  have 5: "send test_client (send_media_request test_client ?a ?m ''peer'' 0)
             ((world ?s)\<lparr>next_id := 1\<rparr>) =
           (Inl (FilePartMissing 3),
            \<lparr>files = [''/tmp/clip.mp4'', ''http.gif''], answers = [], next_id = 1\<rparr>)"
    by (simp add: test_client_sel test_state_def)
  show ?thesis
    using missing_part_without_upload [OF 1 2 3 4 5]
    by (simp add: test_state_sel test_args_sel)
qed

subsection \<open>The test client in the loop\<close>

lemma test_try_send:
  "try_send test_client a m
     \<lparr>world = \<lparr>files = fs, answers = r # rs, next_id = k\<rparr>, calls = cs\<rparr> =
     (r, \<lparr>world = \<lparr>files = fs, answers = rs, next_id = k + 1\<rparr>,
          calls = cs @ [EvResolvePeer (chat_id a),
                        EvSend (send_media_request test_client a m ''peer'' k)]\<rparr>)"
  by (rule trans [OF try_send_sent [where p = "''peer''" and rid = k
          and ?w1.0 = "\<lparr>files = fs, answers = r # rs, next_id = k\<rparr>"
          and ?w2.0 = "\<lparr>files = fs, answers = r # rs, next_id = k + 1\<rparr>"
          and r = r and ?w3.0 = "\<lparr>files = fs, answers = rs, next_id = k + 1\<rparr>"]])
     (simp_all add: test_client_sel)

lemma sent_ids_append: "sent_ids (xs @ ys) = sent_ids xs @ sent_ids ys"
  by (induction xs rule: sent_ids.induct) simp_all

text \<open>
  However many times the server reports a missing part, the loop uploads the part and
  sends again: \<open>n\<close> such answers followed by a good one give \<open>n + 1\<close> requests and the
  message.
\<close>

lemma retries_unbounded:
  "\<exists>cs'. send_loop test_client a m (Some f)
            \<lparr>world = \<lparr>files = fs,
                      answers = replicate n (Inl (FilePartMissing x)) @ [Inr ok_response],
                      next_id = k\<rparr>,
             calls = cs\<rparr> =
          Some (Inr ''m1'',
                \<lparr>world = \<lparr>files = fs, answers = [], next_id = k + int n + 1\<rparr>, calls = cs'\<rparr>)
        \<and> length (sent_ids cs') = length (sent_ids cs) + n + 1"
proof (induction n arbitrary: k cs)
  case 0
  let ?s = "\<lparr>world = \<lparr>files = fs, answers = [Inr ok_response], next_id = k\<rparr>, calls = cs\<rparr>"
  let ?cs1 = "cs @ [EvResolvePeer (chat_id a),
                    EvSend (send_media_request test_client a m ''peer'' k)]"
  have t: "try_send test_client a m ?s =
             (Inr ok_response,
              \<lparr>world = \<lparr>files = fs, answers = [], next_id = k + 1\<rparr>, calls = ?cs1\<rparr>)"
    by (rule test_try_send)
  have "attempt test_client a m (Some f) ?s =
          (Return ''m1'',
           \<lparr>world = \<lparr>files = fs, answers = [], next_id = k + 1\<rparr>,
            calls = ?cs1 @ [EvParseMessages ''m1'']\<rparr>)"
    using attempt_answer [OF t, of "Some f"]
    by (simp add: ok_response_def call_parse_messages_def test_client_sel)
  from send_loop_Return [OF this] show ?case
    by (simp add: sent_ids_append)
next
  case (Suc n)
  let ?rest = "replicate n (Inl (FilePartMissing x)) @ [Inr ok_response]"
  let ?s = "\<lparr>world = \<lparr>files = fs, answers = Inl (FilePartMissing x) # ?rest, next_id = k\<rparr>,
            calls = cs\<rparr>"
  let ?cs1 = "cs @ [EvResolvePeer (chat_id a),
                    EvSend (send_media_request test_client a m ''peer'' k)]"
  let ?cs2 = "?cs1 @ [EvSaveFile (gif a) (Some (file_id f)) x None []]"
  let ?s2 = "\<lparr>world = \<lparr>files = fs, answers = ?rest, next_id = k + 1\<rparr>, calls = ?cs2\<rparr>"
  have t: "try_send test_client a m ?s =
             (Inl (FilePartMissing x),
              \<lparr>world = \<lparr>files = fs, answers = ?rest, next_id = k + 1\<rparr>, calls = ?cs1\<rparr>)"
    by (rule test_try_send)
  have "attempt test_client a m (Some f) ?s = (Continue, ?s2)"
    by (simp add: attempt_missing_some [OF t] call_save_file_def test_client_sel)
  from send_loop_Continue [OF this]
  have step: "send_loop test_client a m (Some f) ?s = send_loop test_client a m (Some f) ?s2" .
  obtain cs' where
    ih: "send_loop test_client a m (Some f) ?s2 =
           Some (Inr ''m1'',
                 \<lparr>world = \<lparr>files = fs, answers = [], next_id = k + 1 + int n + 1\<rparr>,
                  calls = cs'\<rparr>)"
        "length (sent_ids cs') = length (sent_ids ?cs2) + n + 1"
    using Suc.IH [of "k + 1" ?cs2] by blast
  have "send_loop test_client a m (Some f) ?s =
          Some (Inr ''m1'',
                \<lparr>world = \<lparr>files = fs, answers = [], next_id = k + int (Suc n) + 1\<rparr>,
                 calls = cs'\<rparr>)"
    using step ih(1) by (simp add: add.commute add.left_commute)
  moreover have "length (sent_ids cs') = length (sent_ids cs) + Suc n + 1"
    using ih(2) by (simp add: sent_ids_append)
  ultimately show ?case
    by (metis replicate_Suc append_Cons)
qed

subsection \<open>Recovery from a missing file part\<close>

text \<open>
  C5, as stated, fails when nothing was uploaded: for a URL, a \<^verbatim>\<open>FilePartMissing\<close> from
  \<open>send\<close> is neither handled by an upload nor followed by a second \<open>send\<close> (the second
  answer of the server is never asked for), and an error reaches the caller.
\<close>

theorem missing_part_url_counterexample:
  "send_gif test_client (test_args ''http://x'')
     (test_state [Inl (FilePartMissing 3), Inr ok_response]) =
   Some (Inl (AttributeError none_has_no_id),
         \<lparr>world = \<lparr>files = [''/tmp/clip.mp4'', ''http.gif''],
                   answers = [Inr ok_response], next_id = 1\<rparr>,
          calls = [EvResolvePeer (ChatStr ''me''),
                   EvSend (send_media_request test_client (test_args ''http://x'')
                             (InputMediaDocumentExternal ''http://x'') ''peer'' 0)]\<rparr>)"
proof -
  let ?a = "test_args ''http://x''"
  let ?s = "test_state [Inl (FilePartMissing 3), Inr ok_response]"
  let ?m = "InputMediaDocumentExternal ''http://x''"
  have "resolve test_client ?a ?s = (Inr (?m, None), ?s)"
    by (simp add: resolve_def test_client_sel test_state_sel test_args_sel startswith_def)
  then have g: "send_gif test_client ?a ?s = send_loop test_client ?a ?m None ?s"
    by (simp add: send_gif_def)
  have t: "try_send test_client ?a ?m ?s =
      (Inl (FilePartMissing 3),
       \<lparr>world = \<lparr>files = [''/tmp/clip.mp4'', ''http.gif''],
                 answers = [Inr ok_response], next_id = 0 + 1\<rparr>,
        calls = [] @ [EvResolvePeer (chat_id ?a),
                      EvSend (send_media_request test_client ?a ?m ''peer'' 0)]\<rparr>)"
    unfolding test_state_def by (rule test_try_send)
  show ?thesis
    using send_loop_Raise [OF attempt_missing_none [OF t]] g by (simp add: test_args_sel)
qed

text \<open>
  C5, amended. In a pass in which \<open>send\<close> raises \<open>e\<close>:
  when \<open>e\<close> is \<^verbatim>\<open>FilePartMissing x\<close> and a file was uploaded (\<open>file\<close> is \<open>Some f\<close>), the part
  \<open>x\<close> is uploaded again with \<open>save_file\<close> under the id of \<open>f\<close>; if that succeeds the loop
  goes on from the new state, any number of times, and the error is not raised; if that
  upload raises, its error reaches the caller. When \<open>e\<close> is any other error, it reaches
  the caller as it is and no further call is made.
\<close>

theorem missing_part_recovery:
  assumes "resolve_peer cl (chat_id a) (world s) = (Inr p, w1)"
    and "rnd_id cl w1 = (rid, w2)"
    and "send cl (send_media_request cl a m p rid) w2 = (Inl e, w3)"
  shows "(\<forall>x f h w4.
            e = FilePartMissing x \<and> fl = Some f
            \<and> save_file cl (gif a) (Some (file_id f)) x None [] w3 = (Inr h, w4) \<longrightarrow>
            send_loop cl a m fl s =
              send_loop cl a m fl
                \<lparr>world = w4,
                 calls = calls s @ [EvResolvePeer (chat_id a),
                                    EvSend (send_media_request cl a m p rid),
                                    EvSaveFile (gif a) (Some (file_id f)) x None []]\<rparr>)
       \<and> (\<forall>x f e' w4.
            e = FilePartMissing x \<and> fl = Some f
            \<and> save_file cl (gif a) (Some (file_id f)) x None [] w3 = (Inl e', w4) \<longrightarrow>
            send_loop cl a m fl s =
              Some (Inl e',
                \<lparr>world = w4,
                 calls = calls s @ [EvResolvePeer (chat_id a),
                                    EvSend (send_media_request cl a m p rid),
                                    EvSaveFile (gif a) (Some (file_id f)) x None []]\<rparr>))
       \<and> ((\<forall>x. e \<noteq> FilePartMissing x) \<longrightarrow>
            send_loop cl a m fl s =
              Some (Inl e,
                \<lparr>world = w3,
                 calls = calls s @ [EvResolvePeer (chat_id a),
                                    EvSend (send_media_request cl a m p rid)]\<rparr>))"
proof -
  let ?s1 = "\<lparr>world = w3,
              calls = calls s @ [EvResolvePeer (chat_id a),
                                 EvSend (send_media_request cl a m p rid)]\<rparr>"
  have t: "try_send cl a m s = (Inl e, ?s1)"
    by (rule try_send_sent [OF assms])
  have ok: "send_loop cl a m fl s =
              send_loop cl a m fl
                \<lparr>world = w4, calls = calls ?s1 @ [EvSaveFile (gif a) (Some (file_id f)) x None []]\<rparr>"
    if "e = FilePartMissing x" and "fl = Some f"
      and "save_file cl (gif a) (Some (file_id f)) x None [] w3 = (Inr h, w4)" for x f h w4
    by (rule send_loop_Continue)
       (use that t in \<open>simp add: attempt_missing_some call_save_file_def\<close>)
  have bad: "send_loop cl a m fl s =
              Some (Inl e',
                \<lparr>world = w4, calls = calls ?s1 @ [EvSaveFile (gif a) (Some (file_id f)) x None []]\<rparr>)"
    if "e = FilePartMissing x" and "fl = Some f"
      and "save_file cl (gif a) (Some (file_id f)) x None [] w3 = (Inl e', w4)" for x f e' w4
    by (rule send_loop_Raise)
       (use that t in \<open>simp add: attempt_missing_some call_save_file_def\<close>)
  have other: "send_loop cl a m fl s = Some (Inl e, ?s1)" if "\<forall>x. e \<noteq> FilePartMissing x"
    by (rule send_loop_Raise, rule attempt_other [OF t that])
  show ?thesis
    using ok bad other by simp
qed

theorem missing_part_recovery_witness:
  "send_loop test_client (test_args ''/tmp/clip.mp4'') clip_media
     (Some \<lparr>file_id = 77, is_big = False, part_count = 4\<rparr>)
     (test_state [Inl (FilePartMissing 3), Inr ok_response]) =
   send_loop test_client (test_args ''/tmp/clip.mp4'') clip_media
     (Some \<lparr>file_id = 77, is_big = False, part_count = 4\<rparr>)
     \<lparr>world = \<lparr>files = [''/tmp/clip.mp4'', ''http.gif''],
               answers = [Inr ok_response], next_id = 1\<rparr>,
      calls = [EvResolvePeer (ChatStr ''me''),
               EvSend (send_media_request test_client (test_args ''/tmp/clip.mp4'') clip_media ''peer'' 0),
               EvSaveFile ''/tmp/clip.mp4'' (Some 77) 3 None []]\<rparr>
   \<and> send_loop test_client (test_args ''/tmp/clip.mp4'') clip_media
       (Some \<lparr>file_id = 77, is_big = False, part_count = 4\<rparr>)
       (test_state [Inl (OtherError ''flood''), Inr ok_response]) =
     Some (Inl (OtherError ''flood''),
       \<lparr>world = \<lparr>files = [''/tmp/clip.mp4'', ''http.gif''],
                 answers = [Inr ok_response], next_id = 1\<rparr>,
        calls = [EvResolvePeer (ChatStr ''me''),
                 EvSend (send_media_request test_client (test_args ''/tmp/clip.mp4'') clip_media
                           ''peer'' 0)]\<rparr>)"
proof -
  let ?a = "test_args ''/tmp/clip.mp4''"
  let ?f = "\<lparr>file_id = 77, is_big = False, part_count = 4\<rparr>"
  let ?w = "\<lambda>rs. \<lparr>files = [''/tmp/clip.mp4'', ''http.gif''], answers = rs, next_id = 0\<rparr>"
  let ?w' = "\<lambda>rs. \<lparr>files = [''/tmp/clip.mp4'', ''http.gif''], answers = rs, next_id = 1\<rparr>"
  have 1: "resolve_peer test_client (chat_id ?a) (world (test_state rs)) = (Inr ''peer'', ?w rs)"
    for rs by (simp add: test_client_sel test_state_def)
  have 2: "rnd_id test_client (?w rs) = (0, ?w' rs)" for rs
    by (simp add: test_client_sel)
  have 3: "send test_client (send_media_request test_client ?a clip_media ''peer'' 0) (?w' (r # rs)) =
             (r, ?w' rs)" for r rs
    by (simp add: test_client_sel)
  have 4: "save_file test_client (gif ?a) (Some (file_id ?f)) 3 None [] (?w' [Inr ok_response]) =
             (Inr ?f, ?w' [Inr ok_response])"
    by (simp add: test_client_sel)
  show ?thesis
    using missing_part_recovery [where fl = "Some ?f",
              OF 1 [of "[Inl (FilePartMissing 3), Inr ok_response]"]
                 2 [of "[Inl (FilePartMissing 3), Inr ok_response]"]
                 3 [of "Inl (FilePartMissing 3)" "[Inr ok_response]"]]
          missing_part_recovery [where fl = "Some ?f",
              OF 1 [of "[Inl (OtherError ''flood''), Inr ok_response]"]
                 2 [of "[Inl (OtherError ''flood''), Inr ok_response]"]
                 3 [of "Inl (OtherError ''flood'')" "[Inr ok_response]"]]
          4
    by (simp add: test_args_sel test_state_sel)
qed

subsection \<open>The correlation identifier\<close>

text \<open>
  C1, as stated, fails: \<^verbatim>\<open>self.rnd_id()\<close> is an argument of the request built inside the
  loop, so it is called again in every pass. With identifiers drawn from a counter, the
  request sent after the missing part 3 was uploaded again carries the identifier 1,
  the first one carried 0.
\<close>

theorem retry_random_id_counterexample:
  "send_gif test_client (test_args ''/tmp/clip.mp4'')
     (test_state [Inl (FilePartMissing 3), Inr ok_response]) =
   Some (Inr ''m1'',
     \<lparr>world = \<lparr>files = [''/tmp/clip.mp4'', ''http.gif''], answers = [], next_id = 2\<rparr>,
      calls =
        [EvSaveFile ''/tmp/clip.mp4'' None 0 None [],
         EvResolvePeer (ChatStr ''me''),
         EvSend \<lparr>peer = ''peer'',
                 media = InputMediaUploadedDocument ''video/mp4''
                           \<lparr>file_id = 77, is_big = False, part_count = 4\<rparr> None
                           [DocumentAttributeVideo True 5 100 100,
                            DocumentAttributeFilename ''clip.mp4'',
                            DocumentAttributeAnimated],
                 silent = None, reply_to_msg_id = None, random_id = 0,
                 reply_markup_bytes = None, styled = ''md:''\<rparr>,
         EvSaveFile ''/tmp/clip.mp4'' (Some 77) 3 None [],
         EvResolvePeer (ChatStr ''me''),
         EvSend \<lparr>peer = ''peer'',
                 media = InputMediaUploadedDocument ''video/mp4''
                           \<lparr>file_id = 77, is_big = False, part_count = 4\<rparr> None
                           [DocumentAttributeVideo True 5 100 100,
                            DocumentAttributeFilename ''clip.mp4'',
                            DocumentAttributeAnimated],
                 silent = None, reply_to_msg_id = None, random_id = 1,
                 reply_markup_bytes = None, styled = ''md:''\<rparr>,
         EvParseMessages ''m1'']\<rparr>)"
  by code_simp

text \<open>
  C1, amended. Take a pass of the loop, started in any state, in which \<open>send\<close> fails with
  \<^verbatim>\<open>FilePartMissing x\<close> and the part is uploaded again. The pass falls through and
  \<open>send_loop\<close> goes on with the next pass, which resolves the peer again, calls \<open>rnd_id\<close>
  again and sends one request: the same descriptor \<open>m\<close> and the same arguments, with the
  identifier that this second call of \<open>rnd_id\<close> returned, not the one of the failed
  request. When that second request succeeds, the calls of the whole loop are the two
  requests, with the identifiers of the two \<open>rnd_id\<close> calls, the upload between them
  and the parsing of the message.
\<close>

theorem random_id_drawn_in_every_pass:
  assumes "resolve_peer cl (chat_id a) (world s) = (Inr p, w1)"
    and "rnd_id cl w1 = (rid, w2)"
    and "send cl (send_media_request cl a m p rid) w2 = (Inl (FilePartMissing x), w3)"
    and "save_file cl (gif a) (Some (file_id f)) x None [] w3 = (Inr h, w4)"
    and "resolve_peer cl (chat_id a) w4 = (Inr p', w5)"
    and "rnd_id cl w5 = (rid', w6)"
    and "send cl (send_media_request cl a m p' rid') w6 = (r', w7)"
  shows "attempt cl a m (Some f) s =
           (Continue,
            \<lparr>world = w4,
             calls = calls s @ [EvResolvePeer (chat_id a),
                                EvSend (send_media_request cl a m p rid),
                                EvSaveFile (gif a) (Some (file_id f)) x None []]\<rparr>)
       \<and> send_loop cl a m (Some f) s =
           (case attempt cl a m (Some f)
                   \<lparr>world = w4,
                    calls = calls s @ [EvResolvePeer (chat_id a),
                                       EvSend (send_media_request cl a m p rid),
                                       EvSaveFile (gif a) (Some (file_id f)) x None []]\<rparr> of
              (Return res, s') \<Rightarrow> Some (Inr res, s')
            | (Raise e, s') \<Rightarrow> Some (Inl e, s')
            | (Continue, s') \<Rightarrow> send_loop cl a m (Some f) s')
       \<and> (\<exists>tl. calls (snd (attempt cl a m (Some f)
                   \<lparr>world = w4,
                    calls = calls s @ [EvResolvePeer (chat_id a),
                                       EvSend (send_media_request cl a m p rid),
                                       EvSaveFile (gif a) (Some (file_id f)) x None []]\<rparr>)) =
                 calls s @ [EvResolvePeer (chat_id a),
                            EvSend (send_media_request cl a m p rid),
                            EvSaveFile (gif a) (Some (file_id f)) x None [],
                            EvResolvePeer (chat_id a),
                            EvSend (send_media_request cl a m p' rid')] @ tl
               \<and> (\<forall>req. EvSend req \<notin> set tl))
       \<and> random_id (send_media_request cl a m p rid) = rid
       \<and> random_id (send_media_request cl a m p' rid') = rid'
       \<and> send_media_request cl a m p' rid' =
           (send_media_request cl a m p rid)\<lparr>peer := p', random_id := rid'\<rparr>
       \<and> (\<forall>resp msg res w8.
             r' = Inr resp \<and> first_new_message (updates resp) = Some msg
             \<and> parse_messages cl msg (by_id (users resp)) (by_id (chats resp)) w7 = (Inr res, w8)
             \<longrightarrow>
             send_loop cl a m (Some f) s =
               Some (Inr res,
                 \<lparr>world = w8,
                  calls = calls s @ [EvResolvePeer (chat_id a),
                                     EvSend (send_media_request cl a m p rid),
                                     EvSaveFile (gif a) (Some (file_id f)) x None [],
                                     EvResolvePeer (chat_id a),
                                     EvSend (send_media_request cl a m p' rid'),
                                     EvParseMessages msg]\<rparr>))"
proof -
  let ?S1 = "\<lparr>world = w3,
              calls = calls s @ [EvResolvePeer (chat_id a),
                                 EvSend (send_media_request cl a m p rid)]\<rparr>"
  let ?S4 = "\<lparr>world = w4,
              calls = calls s @ [EvResolvePeer (chat_id a),
                                 EvSend (send_media_request cl a m p rid),
                                 EvSaveFile (gif a) (Some (file_id f)) x None []]\<rparr>"
  let ?S7 = "\<lparr>world = w7,
              calls = calls s @ [EvResolvePeer (chat_id a),
                                 EvSend (send_media_request cl a m p rid),
                                 EvSaveFile (gif a) (Some (file_id f)) x None [],
                                 EvResolvePeer (chat_id a),
                                 EvSend (send_media_request cl a m p' rid')]\<rparr>"
  have t1: "try_send cl a m s = (Inl (FilePartMissing x), ?S1)"
    by (rule try_send_sent [OF assms(1,2,3)])
  have a1: "attempt cl a m (Some f) s = (Continue, ?S4)"
    using assms(4) by (simp add: attempt_missing_some [OF t1] call_save_file_def)
  have l1: "send_loop cl a m (Some f) s = send_loop cl a m (Some f) ?S4"
    by (rule send_loop_Continue [OF a1])
  have l2: "send_loop cl a m (Some f) s =
           (case attempt cl a m (Some f) ?S4 of
              (Return res, s') \<Rightarrow> Some (Inr res, s')
            | (Raise e, s') \<Rightarrow> Some (Inl e, s')
            | (Continue, s') \<Rightarrow> send_loop cl a m (Some f) s')"
    by (subst l1) (rule send_loop.simps)
  have t2: "try_send cl a m ?S4 = (r', ?S7)"
    using try_send_sent [of cl a ?S4 p' w5 rid' w6 m r' w7] assms(5,6,7) by simp
  obtain tl where tl: "calls (snd (attempt cl a m (Some f) ?S4)) = calls ?S7 @ tl"
    "\<forall>req. EvSend req \<notin> set tl"
    using attempt_calls [of cl a m "Some f" ?S4] t2 by auto
  have c2: "\<exists>tl. calls (snd (attempt cl a m (Some f) ?S4)) =
                 calls s @ [EvResolvePeer (chat_id a),
                            EvSend (send_media_request cl a m p rid),
                            EvSaveFile (gif a) (Some (file_id f)) x None [],
                            EvResolvePeer (chat_id a),
                            EvSend (send_media_request cl a m p' rid')] @ tl
               \<and> (\<forall>req. EvSend req \<notin> set tl)"
    using tl by auto
  have ids: "random_id (send_media_request cl a m p rid) = rid"
    "random_id (send_media_request cl a m p' rid') = rid'"
    "send_media_request cl a m p' rid' =
       (send_media_request cl a m p rid)\<lparr>peer := p', random_id := rid'\<rparr>"
    by (simp_all add: send_media_request_def)
  have fin: "send_loop cl a m (Some f) s =
               Some (Inr res, \<lparr>world = w8, calls = calls ?S7 @ [EvParseMessages msg]\<rparr>)"
    if "r' = Inr resp" and "first_new_message (updates resp) = Some msg"
      and "parse_messages cl msg (by_id (users resp)) (by_id (chats resp)) w7 = (Inr res, w8)"
    for resp msg res w8
  proof -
    have "try_send cl a m ?S4 = (Inr resp, ?S7)"
      using t2 that(1) by simp
    from attempt_answer [OF this, of "Some f"] that(2,3)
    have "attempt cl a m (Some f) ?S4 =
            (Return res, \<lparr>world = w8, calls = calls ?S7 @ [EvParseMessages msg]\<rparr>)"
      by (simp add: call_parse_messages_def)
    with l2 show ?thesis by simp
  qed
  show ?thesis
    using a1 l2 c2 ids fin by simp
qed

theorem random_id_drawn_in_every_pass_witness:
  "send_loop test_client (test_args ''/tmp/clip.mp4'') clip_media
     (Some \<lparr>file_id = 77, is_big = False, part_count = 4\<rparr>)
     (test_state [Inl (FilePartMissing 3), Inr ok_response]) =
   Some (Inr ''m1'',
     \<lparr>world = \<lparr>files = [''/tmp/clip.mp4'', ''http.gif''], answers = [], next_id = 2\<rparr>,
      calls =
        [EvResolvePeer (ChatStr ''me''),
         EvSend (send_media_request test_client (test_args ''/tmp/clip.mp4'') clip_media
                   ''peer'' 0),
         EvSaveFile ''/tmp/clip.mp4'' (Some 77) 3 None [],
         EvResolvePeer (ChatStr ''me''),
         EvSend (send_media_request test_client (test_args ''/tmp/clip.mp4'') clip_media
                   ''peer'' 1),
         EvParseMessages ''m1'']\<rparr>)
   \<and> random_id (send_media_request test_client (test_args ''/tmp/clip.mp4'') clip_media
                  ''peer'' 0) = 0
   \<and> random_id (send_media_request test_client (test_args ''/tmp/clip.mp4'') clip_media
                  ''peer'' 1) = 1"
proof -
  let ?a = "test_args ''/tmp/clip.mp4''"
  let ?f = "\<lparr>file_id = 77, is_big = False, part_count = 4\<rparr>"
  let ?fs = "[''/tmp/clip.mp4'', ''http.gif'']"
  let ?w0 = "\<lparr>files = ?fs, answers = [Inl (FilePartMissing 3), Inr ok_response], next_id = 0\<rparr>"
  let ?w1 = "\<lparr>files = ?fs, answers = [Inl (FilePartMissing 3), Inr ok_response], next_id = 1\<rparr>"
  let ?w2 = "\<lparr>files = ?fs, answers = [Inr ok_response], next_id = 1\<rparr>"
  let ?w3 = "\<lparr>files = ?fs, answers = [Inr ok_response], next_id = 2\<rparr>"
  let ?w4 = "\<lparr>files = ?fs, answers = [], next_id = 2\<rparr>"
  have 1: "resolve_peer test_client (chat_id ?a)
             (world (test_state [Inl (FilePartMissing 3), Inr ok_response])) = (Inr ''peer'', ?w0)"
    by (simp add: test_client_sel test_state_def)
  have 2: "rnd_id test_client ?w0 = (0, ?w1)"
    by (simp add: test_client_sel)
  have 3: "send test_client (send_media_request test_client ?a clip_media ''peer'' 0) ?w1 =
             (Inl (FilePartMissing 3), ?w2)"
    by (simp add: test_client_sel)
  have 4: "save_file test_client (gif ?a) (Some (file_id ?f)) 3 None [] ?w2 = (Inr ?f, ?w2)"
    by (simp add: test_client_sel)
  have 5: "resolve_peer test_client (chat_id ?a) ?w2 = (Inr ''peer'', ?w2)"
    by (simp add: test_client_sel)
  have 6: "rnd_id test_client ?w2 = (1, ?w3)"
    by (simp add: test_client_sel)
  have 7: "send test_client (send_media_request test_client ?a clip_media ''peer'' 1) ?w3 =
             (Inr ok_response, ?w4)"
    by (simp add: test_client_sel)
  have 8: "first_new_message (updates ok_response) = Some ''m1''"
    by (simp add: ok_response_def)
  have 9: "parse_messages test_client ''m1'' (by_id (users ok_response))
             (by_id (chats ok_response)) ?w4 = (Inr ''m1'', ?w4)"
    by (simp add: test_client_sel)
  note rest = random_id_drawn_in_every_pass
                [OF 1 2 3 4 5 6 7, THEN conjunct2, THEN conjunct2, THEN conjunct2]
  have "send_loop test_client ?a clip_media (Some ?f)
          (test_state [Inl (FilePartMissing 3), Inr ok_response]) =
        Some (Inr ''m1'',
          \<lparr>world = ?w4,
           calls =
             [EvResolvePeer (ChatStr ''me''),
              EvSend (send_media_request test_client ?a clip_media ''peer'' 0),
              EvSaveFile ''/tmp/clip.mp4'' (Some 77) 3 None [],
              EvResolvePeer (ChatStr ''me''),
              EvSend (send_media_request test_client ?a clip_media ''peer'' 1),
              EvParseMessages ''m1'']\<rparr>)"
    using rest [THEN conjunct2, THEN conjunct2, THEN conjunct2, rule_format,
                of ok_response "''m1''" "''m1''" ?w4] 8 9
    by (simp add: test_args_sel test_state_sel)
  moreover have "random_id (send_media_request test_client ?a clip_media ''peer'' 0) = 0"
    using rest [THEN conjunct1] .
  moreover have "random_id (send_media_request test_client ?a clip_media ''peer'' 1) = 1"
    using rest [THEN conjunct2, THEN conjunct1] .
  ultimately show ?thesis by simp
qed

subsection \<open>A response without a new message\<close>

text \<open>
  C8. The first half holds (lemma \<open>first_new_message_Some\<close>). The second half does not:
  when the response to a successful \<open>send\<close> has no update of the two classes, the
  \<^verbatim>\<open>for\<close> loop ends without a \<^verbatim>\<open>return\<close> and \<^verbatim>\<open>while True\<close> starts over. Nothing is reported:
  the same media is sent a second time (identifiers 0 and 1 below), and with a server
  that never sends such an update \<open>send_gif\<close> does not return.
\<close>

theorem no_new_message_sends_again:
  "send_gif test_client (test_args ''http://x'')
     (test_state [Inr empty_response, Inr ok_response]) =
   Some (Inr ''m1'',
     \<lparr>world = \<lparr>files = [''/tmp/clip.mp4'', ''http.gif''], answers = [], next_id = 2\<rparr>,
      calls =
        [EvResolvePeer (ChatStr ''me''),
         EvSend \<lparr>peer = ''peer'', media = InputMediaDocumentExternal ''http://x'',
                 silent = None, reply_to_msg_id = None, random_id = 0,
                 reply_markup_bytes = None, styled = ''md:''\<rparr>,
         EvResolvePeer (ChatStr ''me''),
         EvSend \<lparr>peer = ''peer'', media = InputMediaDocumentExternal ''http://x'',
                 silent = None, reply_to_msg_id = None, random_id = 1,
                 reply_markup_bytes = None, styled = ''md:''\<rparr>,
         EvParseMessages ''m1'']\<rparr>)
   \<and> send_gif mute_client (test_args ''http://x'') (test_state []) = None"
proof -
  have "resolve mute_client (test_args ''http://x'') (test_state []) =
          (Inr (InputMediaDocumentExternal ''http://x'', None), test_state [])"
    by (simp add: resolve_def mute_client_sel test_state_sel test_args_sel startswith_def)
  then have "send_gif mute_client (test_args ''http://x'') (test_state []) = None"
    by (simp add: send_gif_def mute_never_returns)
  moreover have "send_gif test_client (test_args ''http://x'')
     (test_state [Inr empty_response, Inr ok_response]) =
   Some (Inr ''m1'',
     \<lparr>world = \<lparr>files = [''/tmp/clip.mp4'', ''http.gif''], answers = [], next_id = 2\<rparr>,
      calls =
        [EvResolvePeer (ChatStr ''me''),
         EvSend \<lparr>peer = ''peer'', media = InputMediaDocumentExternal ''http://x'',
                 silent = None, reply_to_msg_id = None, random_id = 0,
                 reply_markup_bytes = None, styled = ''md:''\<rparr>,
         EvResolvePeer (ChatStr ''me''),
         EvSend \<lparr>peer = ''peer'', media = InputMediaDocumentExternal ''http://x'',
                 silent = None, reply_to_msg_id = None, random_id = 1,
                 reply_markup_bytes = None, styled = ''md:''\<rparr>,
         EvParseMessages ''m1'']\<rparr>)"
    by code_simp
  ultimately show ?thesis by simp
qed

subsection \<open>The silent flag\<close>

text \<open>Arguments that give the same passes give the same loop.\<close>

lemma send_loop_same_passes:
  fixes cl :: "('w, 'o) client"
  assumes "send_loop cl a m fl s = Some y"
  shows "\<forall>a'. (\<forall>s. attempt cl a m fl s = attempt cl a' m fl s) \<longrightarrow>
               send_loop cl a' m fl s = Some y"
proof (rule send_loop.raw_induct
        [where P = "\<lambda>cl a m fl s y.
            \<forall>a'. (\<forall>s. attempt cl a m fl s = attempt cl a' m fl s) \<longrightarrow>
                  send_loop cl a' m fl s = Some y", OF _ assms])
  fix loop :: "('w, 'o) client \<Rightarrow> 'o gif_args \<Rightarrow> input_media \<Rightarrow> input_file option
                 \<Rightarrow> ('w, 'o) state \<Rightarrow> ((exn + 'o) \<times> ('w, 'o) state) option"
  fix cl a m fl s y
  assume IH: "\<And>cl a m fl s y. loop cl a m fl s = Some y \<Longrightarrow>
                \<forall>a'. (\<forall>s. attempt cl a m fl s = attempt cl a' m fl s) \<longrightarrow>
                      send_loop cl a' m fl s = Some y"
    and eq: "(case attempt cl a m fl s of
                (Return res, s') \<Rightarrow> Some (Inr res, s')
              | (Raise e, s') \<Rightarrow> Some (Inl e, s')
              | (Continue, s') \<Rightarrow> loop cl a m fl s') = Some y"
  show "\<forall>a'. (\<forall>s. attempt cl a m fl s = attempt cl a' m fl s) \<longrightarrow>
              send_loop cl a' m fl s = Some y"
  proof (intro allI impI)
    fix a'
    assume same: "\<forall>s. attempt cl a m fl s = attempt cl a' m fl s"
    obtain out s' where o: "attempt cl a m fl s = (out, s')"
      by (cases "attempt cl a m fl s")
    then have o': "attempt cl a' m fl s = (out, s')"
      using same by simp
    show "send_loop cl a' m fl s = Some y"
    proof (cases out)
      case (Return res)
      with eq o have "y = (Inr res, s')" by simp
      with send_loop_Return [of cl a' m fl s res s'] o' Return show ?thesis by simp
    next
      case (Raise e)
      with eq o have "y = (Inl e, s')" by simp
      with send_loop_Raise [of cl a' m fl s e s'] o' Raise show ?thesis by simp
    next
      case Continue
      with eq o have "loop cl a m fl s' = Some y" by simp
      from IH [OF this] same have "send_loop cl a' m fl s' = Some y" by blast
      with send_loop_Continue [of cl a' m fl s s'] o' Continue show ?thesis by simp
    qed
  qed
qed

lemma send_loop_cong_args:
  assumes "\<And>s. attempt cl a m fl s = attempt cl a' m fl s"
  shows "send_loop cl a m fl s = send_loop cl a' m fl s"
proof (cases "send_loop cl a m fl s")
  case (Some y)
  with send_loop_same_passes [OF Some] assms show ?thesis by simp
next
  case None
  show ?thesis
  proof (cases "send_loop cl a' m fl s")
    case None': None
    with None show ?thesis by simp
  next
    case (Some y)
    from send_loop_same_passes [OF Some] assms have "send_loop cl a m fl s = Some y"
      by simp
    with None show ?thesis by simp
  qed
qed

text \<open>
  C10. The request carries \<open>silent = True\<close> exactly when \<open>disable_notification\<close> is
  \<open>True\<close>; for \<open>False\<close> and for \<open>None\<close> it carries \<open>None\<close>. Every request sent in a pass of the
  loop has that flag, and a call with \<open>disable_notification = False\<close> behaves in every
  respect as the call with \<open>disable_notification = None\<close>.
\<close>

theorem silent_only_when_truthy:
  "silent (send_media_request cl a m p rid) =
     (if disable_notification a = Some True then Some True else None)
   \<and> send_media_request cl (a\<lparr>disable_notification := Some False\<rparr>) m p rid =
       send_media_request cl (a\<lparr>disable_notification := None\<rparr>) m p rid
   \<and> (\<forall>req. EvSend req \<in> set (drop (length (calls s)) (calls (snd (attempt cl a m fl s)))) \<longrightarrow>
         silent req = (if disable_notification a = Some True then Some True else None))
   \<and> send_gif cl (a\<lparr>disable_notification := Some False\<rparr>) s =
       send_gif cl (a\<lparr>disable_notification := None\<rparr>) s"
proof -
  let ?f = "a\<lparr>disable_notification := Some False\<rparr>" and ?n = "a\<lparr>disable_notification := None\<rparr>"
  have flag: "silent (send_media_request cl a m p rid) =
     (if disable_notification a = Some True then Some True else None)" for a m p rid
    by (simp add: send_media_request_def silent_flag_def split: option.splits bool.splits)
  have req: "send_media_request cl ?f m p rid = send_media_request cl ?n m p rid" for m p rid
    by (simp add: send_media_request_def silent_flag_def style_parse_def)
  have sends: "silent req = (if disable_notification a = Some True then Some True else None)"
    if "EvSend req \<in> set (drop (length (calls s)) (calls (snd (attempt cl a m fl s))))" for req
    using attempt_sends [OF that] flag by auto
  have tr: "try_send cl ?f m s = try_send cl ?n m s" for m s
    by (simp add: try_send_def req split: prod.splits sum.splits)
  have pass: "attempt cl ?f m fl s = attempt cl ?n m fl s" for m fl s
    by (simp add: attempt_def tr split: prod.splits sum.splits exn.splits option.splits)
  have "resolve cl ?f s = resolve cl ?n s"
    by (simp add: resolve_def cong: prod.case_cong sum.case_cong option.case_cong)
  then have "send_gif cl ?f s = send_gif cl ?n s"
    using send_loop_cong_args [of cl ?f _ _ ?n, OF pass]
    by (simp add: send_gif_def split: prod.splits sum.splits)
  with flag req sends show ?thesis by blast
qed

theorem silent_only_when_truthy_witness:
  "silent (send_media_request test_client
             ((test_args ''http://x'')\<lparr>disable_notification := Some False\<rparr>)
             (InputMediaDocumentExternal ''http://x'') ''peer'' 0) = None
   \<and> silent (send_media_request test_client
             ((test_args ''http://x'')\<lparr>disable_notification := Some True\<rparr>)
             (InputMediaDocumentExternal ''http://x'') ''peer'' 0) = Some True
   \<and> send_gif test_client ((test_args ''http://x'')\<lparr>disable_notification := Some False\<rparr>)
        (test_state [Inr ok_response]) =
      send_gif test_client ((test_args ''http://x'')\<lparr>disable_notification := None\<rparr>)
        (test_state [Inr ok_response])"
  using silent_only_when_truthy [of test_client
          "(test_args ''http://x'')\<lparr>disable_notification := Some False\<rparr>"
          "InputMediaDocumentExternal ''http://x''" "''peer''" 0 "test_state [Inr ok_response]" None]
        silent_only_when_truthy [of test_client
          "(test_args ''http://x'')\<lparr>disable_notification := Some True\<rparr>"
          "InputMediaDocumentExternal ''http://x''" "''peer''" 0 "test_state [Inr ok_response]" None]
        silent_only_when_truthy [of test_client "test_args ''http://x''"
          "InputMediaDocumentExternal ''http://x''" "''peer''" 0 "test_state [Inr ok_response]" None]
  by simp

end
